theory Spec2Isabelle
  imports Main "HOL-Library.AList"
begin

section \<open>Data status of a DVC repository\<close>

text \<open>
  A shallow embedding of the status computation of \<^verbatim>\<open>dvc/repo/data.py\<close> and of the
  argument checks of \<^verbatim>\<open>dvc/repo/imp_url.py\<close>. The collaborators that live in
  other packages (the tree-diff primitive of \<^verbatim>\<open>dvc_data\<close>, the source-control
  backend of \<^verbatim>\<open>scmrepo\<close>, the file system of \<^verbatim>\<open>dvc_objects\<close>, the stage
  machinery) are parameters of the model: a record field holds the outcome of each call,
  a value or the exception it raises.
\<close>

subsection \<open>Exceptions\<close>

text \<open>
  Modelled from the spec: why a source-control operation failed. The spec singles out one
  cause, the repository that has no commits yet; any other cause (a head that does not
  resolve, a repository that cannot be read) is given by its message.
\<close>

datatype cause = NoCommits | OtherCause string

text \<open>
  An exception has a class, by which an \<^verbatim>\<open>except\<close> clause selects it, and the two
  source-control classes carry the cause, which no \<^verbatim>\<open>except\<close> clause of
  \<^verbatim>\<open>data.py\<close> looks at. \<^verbatim>\<open>data.py\<close> imports two classes called
  \<^verbatim>\<open>SCMError\<close>: the one of \<^verbatim>\<open>dvc.scm\<close> (in \<^verbatim>\<open>status\<close>) and the one of
  \<^verbatim>\<open>scmrepo.exceptions\<close> (in \<^verbatim>\<open>_git_info\<close>).
\<close>

datatype error =
    DvcSCMError cause              \<comment> \<open>\<^verbatim>\<open>dvc.scm.SCMError\<close>\<close>
  | NoSCMError                     \<comment> \<open>\<^verbatim>\<open>dvc.scm.NoSCMError\<close>\<close>
  | ScmrepoSCMError cause          \<comment> \<open>\<^verbatim>\<open>scmrepo.exceptions.SCMError\<close>\<close>
  | UnboundLocalError              \<comment> \<open>reading a local variable that was never assigned\<close>
  | TypeError                      \<comment> \<open>a keyword argument passed twice\<close>
  | ValueError                     \<comment> \<open>\<^verbatim>\<open>relpath\<close> of an empty path\<close>
  | InvalidArgumentError string    \<comment> \<open>\<^verbatim>\<open>dvc.exceptions.InvalidArgumentError\<close>\<close>
  | OutputDuplicationError string "string list"
  | OtherError string              \<comment> \<open>any other exception of a collaborator\<close>

text \<open>\<^verbatim>\<open>except SCMError\<close> in \<^verbatim>\<open>_git_info\<close>\<close>

definition is_scmrepo_scm_error :: "error \<Rightarrow> bool" where
  "is_scmrepo_scm_error e \<longleftrightarrow> (case e of ScmrepoSCMError c \<Rightarrow> True | _ \<Rightarrow> False)"

text \<open>\<^verbatim>\<open>except (SCMError, NoSCMError)\<close> in \<^verbatim>\<open>status\<close>\<close>

definition caught_by_status :: "error \<Rightarrow> bool" where
  "caught_by_status e \<longleftrightarrow>
     (case e of DvcSCMError c \<Rightarrow> True | NoSCMError \<Rightarrow> True | _ \<Rightarrow> False)"

subsection \<open>Platform\<close>

datatype os_name = posix | nt

definition os_sep :: "os_name \<Rightarrow> string" where
  "os_sep os = (case os of posix \<Rightarrow> ''/'' | nt \<Rightarrow> [CHR 0x5C])"

definition os_curdir :: string where
  "os_curdir = ''.''"

text \<open>\<^verbatim>\<open>path.replace(posixpath.sep, os.path.sep)\<close>\<close>

definition posixpath_to_os_path :: "os_name \<Rightarrow> string \<Rightarrow> string" where
  "posixpath_to_os_path os path =
     concat (map (\<lambda>c. if c = CHR ''/'' then os_sep os else [c]) path)"

subsection \<open>Snapshots and change records\<close>

text \<open>
  Modelled from the spec: the classes of an entry and of a change record belong to
  \<^verbatim>\<open>dvc_data\<close>, which is not part of the repository; the fields are the ones
  \<^verbatim>\<open>_diff\<close> and \<^verbatim>\<open>_adapt_path\<close> read. An entry optionally carries a content
  hash and a meta with the directory flag, and refers to an object store. A field that is
  absent, or false in a condition, is \<open>None\<close>. The object store is the set of the hash
  values whose object exists physically.
\<close>

record meta =
  isdir :: bool

record hash_info =
  hvalue :: string    \<comment> \<open>\<^verbatim>\<open>hash_info.value\<close>\<close>

type_synonym odb = "string set"

definition odb_exists :: "odb \<Rightarrow> string \<Rightarrow> bool" where
  "odb_exists store v \<longleftrightarrow> v \<in> store"

record entry =
  meta :: "meta option"
  hash_info :: "hash_info option"
  odb :: odb

type_synonym snapshot = "(string list \<times> entry) list"

datatype change_typ = ADD | MODIFY | DELETE | UNCHANGED | UNKNOWN

record change =
  key :: "string list"
  old :: "entry option"
  new :: "entry option"
  ctyp :: change_typ    \<comment> \<open>\<^verbatim>\<open>change.typ\<close>\<close>

text \<open>
  Modelled from the spec: the constants \<^verbatim>\<open>ADD\<close>, \<^verbatim>\<open>MODIFY\<close>, \<^verbatim>\<open>DELETE\<close>,
  \<^verbatim>\<open>UNCHANGED\<close> and \<^verbatim>\<open>UNKNOWN\<close> of \<^verbatim>\<open>dvc_data.index.diff\<close> are strings;
  \<^verbatim>\<open>UNCHANGED\<close> and \<^verbatim>\<open>UNKNOWN\<close> pass through \<^verbatim>\<open>_adapt_typ\<close> under their
  literal names, and \<^verbatim>\<open>status\<close> reads the first one back as \<^verbatim>\<open>"unchanged"\<close>.
\<close>

fun typ_str :: "change_typ \<Rightarrow> string" where
  "typ_str ADD = ''add''"
| "typ_str MODIFY = ''modify''"
| "typ_str DELETE = ''delete''"
| "typ_str UNCHANGED = ''unchanged''"
| "typ_str UNKNOWN = ''unknown''"

subsection \<open>The change classifier\<close>

text \<open>\<^verbatim>\<open>_adapt_typ\<close>: compares its argument, a string, with the three constants.\<close>

definition adapt_typ :: "string \<Rightarrow> string" where
  "adapt_typ t =
     (if t = typ_str MODIFY then ''modified''
      else if t = typ_str ADD then ''added''
      else if t = typ_str DELETE then ''deleted''
      else t)"

text \<open>
  \<^verbatim>\<open>_adapt_path\<close>: the directory flag comes from \<^verbatim>\<open>new\<close> when it has a meta,
  otherwise from \<^verbatim>\<open>old\<close> when it has one, otherwise it is false; a directory gets an
  empty last component, and the components are joined with the separator.
\<close>

fun sep_join :: "string \<Rightarrow> string list \<Rightarrow> string" where
  "sep_join sep [] = []"
| "sep_join sep [x] = x"
| "sep_join sep (x # y # ys) = x @ sep @ sep_join sep (y # ys)"

definition entry_meta :: "entry option \<Rightarrow> meta option" where
  "entry_meta e = (case e of None \<Rightarrow> None | Some x \<Rightarrow> meta x)"

definition adapt_path :: "os_name \<Rightarrow> change \<Rightarrow> string" where
  "adapt_path os c =
     (let isdir0 =
            (case entry_meta (new c) of
               Some m \<Rightarrow> isdir m
             | None \<Rightarrow> (case entry_meta (old c) of Some m \<Rightarrow> isdir m | None \<Rightarrow> False));
          k = (if isdir0 then key c @ [''''] else key c)
      in sep_join (os_sep os) k)"

text \<open>
  A \<^verbatim>\<open>Dict[str, List[str]]\<close> keeps its keys in insertion order: an association list
  with distinct keys. \<open>AList.update\<close> replaces the value of a key in place and appends
  a new key at the end, as an assignment to a dict item does.
\<close>

type_synonym buckets = "(string \<times> string list) list"

text \<open>\<^verbatim>\<open>d.get(k, [])\<close>\<close>

definition bucket :: "buckets \<Rightarrow> string \<Rightarrow> string list" where
  "bucket d k = (case map_of d k of None \<Rightarrow> [] | Some ps \<Rightarrow> ps)"

text \<open>\<^verbatim>\<open>d.pop(k, [])\<close>: the value (or the default) and the dict without the key.\<close>

definition dict_pop :: "buckets \<Rightarrow> string \<Rightarrow> string list \<times> buckets" where
  "dict_pop d k =
     (case map_of d k of None \<Rightarrow> ([], d) | Some ps \<Rightarrow> (ps, AList.delete k d))"

text \<open>
  \<^verbatim>\<open>_add_change\<close>: a new key starts with the empty list, then the path is appended
  to the list of the key.
\<close>

definition add_change :: "os_name \<Rightarrow> string \<Rightarrow> change \<Rightarrow> buckets \<Rightarrow> buckets" where
  "add_change os t c ret =
     (let t' = adapt_typ t;
          ret1 = (if map_of ret t' = None then AList.update t' [] ret else ret)
      in AList.update t' (bucket ret1 t' @ [adapt_path os c]) ret1)"

text \<open>The three conditions of the loop body of \<^verbatim>\<open>_diff\<close>.\<close>

definition has_hash :: "entry \<Rightarrow> bool" where
  "has_hash e \<longleftrightarrow> hash_info e \<noteq> None"

definition skip_unchanged :: "change \<Rightarrow> bool" where
  "skip_unchanged c \<longleftrightarrow>
     ctyp c = UNCHANGED \<and>
     (case old c of None \<Rightarrow> False | Some oe \<Rightarrow>
        (case new c of None \<Rightarrow> False | Some ne \<Rightarrow> \<not> has_hash oe \<and> \<not> has_hash ne))"

definition skip_unknown :: "change \<Rightarrow> bool" where
  "skip_unknown c \<longleftrightarrow> ctyp c = UNKNOWN \<and> new c = None"

definition old_missing :: "change \<Rightarrow> bool" where
  "old_missing c \<longleftrightarrow>
     (case old c of None \<Rightarrow> False | Some oe \<Rightarrow>
        (case hash_info oe of None \<Rightarrow> False | Some h \<Rightarrow> \<not> odb_exists (odb oe) (hvalue h)))"

text \<open>The loop of \<^verbatim>\<open>_diff\<close> over the records the primitive yields.\<close>

fun diff_loop :: "os_name \<Rightarrow> bool \<Rightarrow> change list \<Rightarrow> buckets \<Rightarrow> buckets" where
  "diff_loop os with_missing [] ret = ret"
| "diff_loop os with_missing (c # cs) ret =
     (if skip_unchanged c then diff_loop os with_missing cs ret
      else if skip_unknown c then diff_loop os with_missing cs ret
      else
        let ret1 = (if with_missing \<and> old_missing c
                    then add_change os ''not_in_cache'' c ret else ret)
        in diff_loop os with_missing cs (add_change os (typ_str (ctyp c)) c ret1))"

text \<open>
  The tree-diff primitive \<^verbatim>\<open>dvc_data.index.diff.diff\<close> is a parameter: called with
  \<^verbatim>\<open>with_unchanged=True\<close>, \<^verbatim>\<open>hash_only=True\<close>, \<^verbatim>\<open>with_unknown=True\<close> and the
  given \<^verbatim>\<open>shallow\<close>, it yields its records or raises.
\<close>

type_synonym diff_prim = "snapshot \<Rightarrow> snapshot \<Rightarrow> bool \<Rightarrow> error + change list"

text \<open>\<^verbatim>\<open>_diff(old, new, granular=..., with_missing=...)\<close>\<close>

definition data_diff ::
  "os_name \<Rightarrow> diff_prim \<Rightarrow> snapshot \<Rightarrow> snapshot \<Rightarrow> bool \<Rightarrow> bool \<Rightarrow> error + buckets" where
  "data_diff os diff old_idx new_idx granular with_missing =
     (case diff old_idx new_idx (\<not> granular) of
        Inl e \<Rightarrow> Inl e
      | Inr changes \<Rightarrow> Inr (diff_loop os with_missing changes []))"

subsection \<open>The source-control status adapter\<close>

text \<open>
  The handle \<^verbatim>\<open>repo.scm\<close>: whether it is a \<^verbatim>\<open>NoSCM\<close>, its root directory, the
  outcome of \<^verbatim>\<open>get_rev()\<close> and the outcome of \<^verbatim>\<open>status(untracked_files=...)\<close>.
\<close>

record scm =
  is_noscm :: bool
  scm_root_dir :: string
  get_rev :: "error + string"
  scm_status :: "string \<Rightarrow> error + (buckets \<times> buckets \<times> string list)"

text \<open>
  \<^verbatim>\<open>GitInfo\<close> is a \<^verbatim>\<open>TypedDict\<close> with \<^verbatim>\<open>total=False\<close>: \<^verbatim>\<open>_git_info\<close>
  returns either the empty dict (\<open>None\<close>) or all five fields.
\<close>

record git_fields =
  git_staged :: buckets
  git_unstaged :: buckets
  git_untracked :: "string list"
  git_is_empty :: bool
  git_is_dirty :: bool

type_synonym GitInfo = "git_fields option"

text \<open>The \<^verbatim>\<open>try\<close> statement of \<^verbatim>\<open>_git_info\<close>: \<^verbatim>\<open>empty_repo\<close>, or the exception that is not caught.\<close>

definition empty_repo_of :: "error + string \<Rightarrow> error + bool" where
  "empty_repo_of res =
     (case res of
        Inl e \<Rightarrow> if is_scmrepo_scm_error e then Inr True else Inl e
      | Inr revision \<Rightarrow> Inr False)"

definition git_info :: "os_name \<Rightarrow> scm \<Rightarrow> string \<Rightarrow> error + GitInfo" where
  "git_info os s untracked_files =
     (if is_noscm s then Inr None
      else
        case empty_repo_of (get_rev s) of
          Inl e \<Rightarrow> Inl e
        | Inr empty_repo \<Rightarrow>
            (case scm_status s untracked_files of
               Inl e \<Rightarrow> Inl e
             | Inr (staged, unstaged, untracked0) \<Rightarrow>
                 let untracked1 =
                       (if os = nt then map (posixpath_to_os_path os) untracked0
                        else untracked0)
                 in Inr (Some \<lparr>git_staged = staged, git_unstaged = unstaged,
                               git_untracked = untracked1, git_is_empty = empty_repo,
                               git_is_dirty =
                                 (staged \<noteq> [] \<or> unstaged \<noteq> [] \<or> untracked1 \<noteq> [])\<rparr>)))"

subsection \<open>The repository and the two comparers\<close>

text \<open>
  \<^verbatim>\<open>repo.fs.path\<close>: \<^verbatim>\<open>relpath(path, start)\<close>, which may raise, and
  \<^verbatim>\<open>getcwd()\<close>.
\<close>

record fs =
  relpath :: "string \<Rightarrow> string \<Rightarrow> error + string"
  getcwd :: string

text \<open>
  The repository: \<^verbatim>\<open>repo.index.data["repo"]\<close> in the workspace, the outcome of
  \<^verbatim>\<open>build_data_index(repo.index, repo.root_dir, repo.fs, compute_hash=True)\<close>, and
  \<^verbatim>\<open>repo.brancher(revs=[head])\<close>, a generator: the states it yields, each with the
  \<^verbatim>\<open>repo.index.data["repo"]\<close> seen while the generator is at that state, and the
  exception that ends it, if any.
\<close>

record repo =
  root_dir :: string
  scm :: scm
  fs :: fs
  index_data :: snapshot
  build_data_index :: "error + snapshot"
  brancher :: "string \<Rightarrow> (string \<times> snapshot) list \<times> error option"

text \<open>
  The keyword arguments \<^verbatim>\<open>status\<close> and the comparers pass on: \<open>None\<close> is a
  keyword that is not passed.
\<close>

record kwargs =
  kw_head :: "string option"
  kw_granular :: "bool option"
  kw_with_missing :: "bool option"

definition granular_of :: "kwargs \<Rightarrow> bool" where
  "granular_of kw = (case kw_granular kw of None \<Rightarrow> False | Some b \<Rightarrow> b)"

text \<open>
  \<^verbatim>\<open>_diff_index_to_wtree\<close>: the workspace index is built first; the call of
  \<^verbatim>\<open>_diff\<close> passes \<^verbatim>\<open>with_missing=True\<close> beside \<^verbatim>\<open>**kwargs\<close>, so a
  \<^verbatim>\<open>with_missing\<close> among the keyword arguments is passed twice.
\<close>

definition diff_index_to_wtree ::
  "os_name \<Rightarrow> diff_prim \<Rightarrow> repo \<Rightarrow> kwargs \<Rightarrow> error + buckets" where
  "diff_index_to_wtree os diff r kw =
     (case build_data_index r of
        Inl e \<Rightarrow> Inl e
      | Inr workspace \<Rightarrow>
          (case kw_with_missing kw of
             Some b \<Rightarrow> Inl TypeError
           | None \<Rightarrow> data_diff os diff (index_data r) workspace (granular_of kw) True))"

text \<open>
  The loop of \<^verbatim>\<open>_diff_head_to_index\<close>: \<^verbatim>\<open>head_index\<close> is unassigned
  (\<open>None\<close>) until a state other than \<^verbatim>\<open>"workspace"\<close> assigns it.
\<close>

fun head_loop :: "(string \<times> snapshot) list \<Rightarrow> snapshot option \<Rightarrow> snapshot option" where
  "head_loop [] head_index = head_index"
| "head_loop ((revision, idx) # states) head_index =
     (if revision = ''workspace'' then head_loop states head_index
      else head_loop states (Some idx))"

definition diff_head_to_index ::
  "os_name \<Rightarrow> diff_prim \<Rightarrow> repo \<Rightarrow> string \<Rightarrow> kwargs \<Rightarrow> error + buckets" where
  "diff_head_to_index os diff r head kw =
     (let index = index_data r in
      case brancher r head of
        (states, Some e) \<Rightarrow> Inl e
      | (states, None) \<Rightarrow>
          (case head_loop states None of
             None \<Rightarrow> Inl UnboundLocalError
           | Some head_index \<Rightarrow>
               data_diff os diff head_index index (granular_of kw)
                 (case kw_with_missing kw of None \<Rightarrow> False | Some b \<Rightarrow> b)))"

subsection \<open>The path translator\<close>

definition startswith :: "string \<Rightarrow> string \<Rightarrow> bool" where
  "startswith s p \<longleftrightarrow> take (length p) s = p"

definition endswith :: "string \<Rightarrow> string \<Rightarrow> bool" where
  "endswith s p \<longleftrightarrow> length p \<le> length s \<and> drop (length s - length p) s = p"

text \<open>\<^verbatim>\<open>s.rstrip("/")\<close>\<close>

definition rstrip_slash :: "string \<Rightarrow> string" where
  "rstrip_slash s = rev (dropWhile (\<lambda>c. c = CHR ''/'') (rev s))"

text \<open>A list comprehension whose element expression may raise stops at the first raise.\<close>

fun map_err :: "('a \<Rightarrow> error + 'b) \<Rightarrow> 'a list \<Rightarrow> error + 'b list" where
  "map_err f [] = Inr []"
| "map_err f (x # xs) =
     (case f x of
        Inl e \<Rightarrow> Inl e
      | Inr y \<Rightarrow> (case map_err f xs of Inl e \<Rightarrow> Inl e | Inr ys \<Rightarrow> Inr (y # ys)))"

definition transform_git_paths_to_dvc ::
  "os_name \<Rightarrow> repo \<Rightarrow> string list \<Rightarrow> error + string list" where
  "transform_git_paths_to_dvc os r files =
     (case relpath (fs r) (root_dir r) (scm_root_dir (scm r)) of
        Inl e \<Rightarrow> Inl e
      | Inr rel0 \<Rightarrow>
          let rel = rstrip_slash rel0;
              files1 =
                (if rel \<noteq> os_curdir \<and> rel \<noteq> ''''
                 then let prefix = rel @ os_sep os
                      in map (drop (length prefix))
                           (filter (\<lambda>file. startswith file prefix) files)
                 else files)
          in (case relpath (fs r) (getcwd (fs r)) (root_dir r) of
                Inl e \<Rightarrow> Inl e
              | Inr start \<Rightarrow>
                  if start = os_curdir \<or> start = '''' then Inr files1
                  else map_err (\<lambda>file. relpath (fs r) file start) files1))"

subsection \<open>The status aggregator\<close>

text \<open>
  The report. \<^verbatim>\<open>list(unchanged)\<close> enumerates a Python set, in an order the language
  does not fix and without duplicates: the field keeps the set.
\<close>

record status_report =
  not_in_cache :: "string list"
  committed :: buckets
  uncommitted :: buckets
  untracked :: "string list"
  unchanged :: "string set"
  git :: GitInfo

text \<open>
  The \<^verbatim>\<open>try\<close> statement of \<^verbatim>\<open>status\<close>: the committed diff and the new
  \<^verbatim>\<open>unchanged\<close> set, or the exception that is not caught.
\<close>

definition committed_step ::
  "error + buckets \<Rightarrow> string set \<Rightarrow> error + (buckets \<times> string set)" where
  "committed_step res unch =
     (case res of
        Inl e \<Rightarrow> if caught_by_status e then Inr ([], unch) else Inl e
      | Inr committed_diff0 \<Rightarrow>
          (case dict_pop committed_diff0 ''unchanged'' of
             (u, committed_diff) \<Rightarrow> Inr (committed_diff, unch \<inter> set u)))"

text \<open>\<^verbatim>\<open>head = kwargs.pop("head", "HEAD")\<close>: the head and the remaining keyword arguments.\<close>

definition pop_head :: "kwargs \<Rightarrow> string \<times> kwargs" where
  "pop_head kw =
     ((case kw_head kw of None \<Rightarrow> ''HEAD'' | Some h \<Rightarrow> h), kw\<lparr>kw_head := None\<rparr>)"

text \<open>\<^verbatim>\<open>git_info.get("untracked", [])\<close>\<close>

definition get_untracked :: "GitInfo \<Rightarrow> string list" where
  "get_untracked gi = (case gi of None \<Rightarrow> [] | Some g \<Rightarrow> git_untracked g)"

definition status ::
  "os_name \<Rightarrow> diff_prim \<Rightarrow> repo \<Rightarrow> string \<Rightarrow> kwargs \<Rightarrow> error + status_report" where
  "status os diff r untracked_files kwargs0 =
     (case pop_head kwargs0 of (head, kw) \<Rightarrow>
     (case diff_index_to_wtree os diff r kw of
        Inl e \<Rightarrow> Inl e
      | Inr uncommitted_diff0 \<Rightarrow>
          (case dict_pop uncommitted_diff0 ''not_in_cache'' of
             (nic, uncommitted_diff1) \<Rightarrow>
          (case dict_pop uncommitted_diff1 ''unchanged'' of
             (u, uncommitted_diff) \<Rightarrow>
          (case committed_step (diff_head_to_index os diff r head kw) (set u) of
             Inl e \<Rightarrow> Inl e
           | Inr (committed_diff, unch) \<Rightarrow>
          (case git_info os (scm r) untracked_files of
             Inl e \<Rightarrow> Inl e
           | Inr gi \<Rightarrow>
          (case transform_git_paths_to_dvc os r (get_untracked gi) of
             Inl e \<Rightarrow> Inl e
           | Inr untracked1 \<Rightarrow>
               Inr \<lparr>not_in_cache = nic, committed = committed_diff,
                    uncommitted = uncommitted_diff, untracked = untracked1,
                    unchanged = unch, git = gi\<rparr>)))))))"

subsection \<open>Relative paths on a POSIX file system\<close>

text \<open>
  \<^verbatim>\<open>repo.fs.path.relpath\<close> is a parameter of the translator. For a local file system
  on POSIX it rests on \<^verbatim>\<open>posixpath\<close> of the Python standard library, which is
  written out here with the current directory of the process as an argument:
  \<^verbatim>\<open>split\<close>, \<^verbatim>\<open>join\<close>, \<^verbatim>\<open>normpath\<close>, \<^verbatim>\<open>abspath\<close>, \<^verbatim>\<open>commonprefix\<close>
  and \<^verbatim>\<open>relpath\<close>.
\<close>

text \<open>\<^verbatim>\<open>s.split(d)\<close> for a separator of one character\<close>

fun str_split :: "char \<Rightarrow> string \<Rightarrow> string list" where
  "str_split d [] = [[]]"
| "str_split d (c # cs) =
     (if c = d then [] # str_split d cs
      else (case str_split d cs of [] \<Rightarrow> [[c]] | x # xs \<Rightarrow> (c # x) # xs))"

definition posix_join :: "string \<Rightarrow> string \<Rightarrow> string" where
  "posix_join a b =
     (if startswith b ''/'' then b
      else if a = [] \<or> endswith a ''/'' then a @ b
      else a @ ''/'' @ b)"

text \<open>The loop of \<^verbatim>\<open>normpath\<close> over the components, \<^verbatim>\<open>new_comps\<close> as accumulator.\<close>

fun norm_comps :: "bool \<Rightarrow> string list \<Rightarrow> string list \<Rightarrow> string list" where
  "norm_comps initial_slashes [] new_comps = new_comps"
| "norm_comps initial_slashes (part # comps) new_comps =
     (if part = '''' \<or> part = ''.'' then norm_comps initial_slashes comps new_comps
      else if part \<noteq> ''..'' \<or> (\<not> initial_slashes \<and> new_comps = [])
              \<or> (new_comps \<noteq> [] \<and> last new_comps = ''..'')
      then norm_comps initial_slashes comps (new_comps @ [part])
      else if new_comps \<noteq> [] then norm_comps initial_slashes comps (butlast new_comps)
      else norm_comps initial_slashes comps new_comps)"

definition posix_normpath :: "string \<Rightarrow> string" where
  "posix_normpath path =
     (if path = [] then ''.''
      else
        let initial_slashes =
              (if startswith path ''/''
               then (if startswith path ''//'' \<and> \<not> startswith path ''///''
                     then 2 else 1)
               else (0::nat));
            comps = norm_comps (initial_slashes \<noteq> 0) (str_split CHR ''/'' path) [];
            p = replicate initial_slashes CHR ''/'' @ sep_join ''/'' comps
        in if p = [] then ''.'' else p)"

definition posix_abspath :: "string \<Rightarrow> string \<Rightarrow> string" where
  "posix_abspath cwd path =
     posix_normpath (if startswith path ''/'' then path else posix_join cwd path)"

fun commonprefix :: "'a list \<Rightarrow> 'a list \<Rightarrow> 'a list" where
  "commonprefix (x # xs) (y # ys) = (if x = y then x # commonprefix xs ys else [])"
| "commonprefix xs ys = []"

definition posix_relpath :: "string \<Rightarrow> string \<Rightarrow> string \<Rightarrow> error + string" where
  "posix_relpath cwd path start =
     (if path = [] then Inl ValueError
      else
        let start_list = filter (\<lambda>x. x \<noteq> []) (str_split CHR ''/'' (posix_abspath cwd start));
            path_list = filter (\<lambda>x. x \<noteq> []) (str_split CHR ''/'' (posix_abspath cwd path));
            i = length (commonprefix start_list path_list);
            rel_list = replicate (length start_list - i) ''..'' @ drop i path_list
        in (case rel_list of
              [] \<Rightarrow> Inr ''.''
            | x # xs \<Rightarrow> Inr (foldl posix_join x xs)))"

text \<open>
  \<^verbatim>\<open>repo.fs.path.relpath\<close> of a local file system makes both arguments absolute
  against the current directory and passes the results to \<^verbatim>\<open>posixpath.relpath\<close>: an
  empty path stands for the current directory and does not raise.
\<close>

definition fs_path_relpath :: "string \<Rightarrow> string \<Rightarrow> string \<Rightarrow> error + string" where
  "fs_path_relpath cwd path start =
     posix_relpath cwd (posix_abspath cwd path) (posix_abspath cwd start)"

subsection \<open>The tree-diff primitive on equal snapshots\<close>

text \<open>
  Modelled from the spec: the tree-diff primitive \<^verbatim>\<open>dvc_data.index.diff.diff\<close> is
  not part of the repository. Comparing a snapshot with itself, with
  \<^verbatim>\<open>with_unchanged=true\<close> and without \<^verbatim>\<open>shallow\<close>, it yields one record per entry
  of the snapshot, in the snapshot's order, of kind \<^verbatim>\<open>UNCHANGED\<close>, with the entry as
  \<^verbatim>\<open>old\<close> and as \<^verbatim>\<open>new\<close>.
\<close>

definition unchanged_records :: "snapshot \<Rightarrow> change list" where
  "unchanged_records snap =
     map (\<lambda>(k, e). \<lparr>key = k, old = Some e, new = Some e, ctyp = UNCHANGED\<rparr>) snap"

text \<open>A primitive that yields the given records, whatever the snapshots.\<close>

definition diff_yielding :: "change list \<Rightarrow> diff_prim" where
  "diff_yielding changes old_idx new_idx shallow = Inr changes"

subsection \<open>Importing a URL\<close>

text \<open>
  The arguments of \<^verbatim>\<open>imp_url\<close> that decide its control flow. \<^verbatim>\<open>desc\<close>,
  \<^verbatim>\<open>type\<close>, \<^verbatim>\<open>labels\<close>, \<^verbatim>\<open>meta\<close> and \<^verbatim>\<open>jobs\<close> are only handed to the
  stage; \<^verbatim>\<open>fs_config\<close> is reduced to the flag \<^verbatim>\<open>version_aware\<close> sets in it.
\<close>

record imp_args =
  url :: string
  out :: "string option"
  fname :: "string option"
  erepo :: "string option"
  frozen :: bool
  no_download :: bool
  no_exec :: bool
  remote :: "string option"
  to_remote :: bool
  version_aware :: bool

text \<open>What \<^verbatim>\<open>imp_url\<close> does to the stage, in order.\<close>

datatype stage_event =
    Create string string string string bool
      \<comment> \<open>\<^verbatim>\<open>self.stage.create\<close>: fname, wdir, the dependency, the output, version\_aware\<close>
  | AnnotUpdate
  | CheckGraph
  | IgnoreOuts
  | GetRemoteOdb "string option"
  | Transfer string
  | SaveDeps
  | ComputeMd5
  | Run bool               \<comment> \<open>\<^verbatim>\<open>stage.run(jobs=jobs, no_download=no_download)\<close>\<close>
  | SetCanPush bool
  | SetFrozen bool
  | Dump

text \<open>
  The collaborators of \<^verbatim>\<open>imp_url\<close>. The decorators \<^verbatim>\<open>locked\<close> and
  \<^verbatim>\<open>scm_context\<close> are declared elsewhere: they are given by the exception they
  raise before the body runs and the one they raise after the body has returned, if any;
  an exception of the body passes through them. The path helpers \<^verbatim>\<open>resolve_output\<close>
  and \<^verbatim>\<open>resolve_paths\<close> of \<^verbatim>\<open>dvc.utils\<close> return or raise. Then come the test
  \<^verbatim>\<open>os.path.exists(url) and path_isin(os.path.abspath(url), self.root_dir)\<close>, the
  exception each step on the stage raises, if any, and
  \<^verbatim>\<open>stage.deps[0].fs.version_aware\<close>.
\<close>

record imp_env =
  decorators_enter :: "error option"
  decorators_exit :: "error option"
  resolve_output :: "string \<Rightarrow> string option \<Rightarrow> error + string"
  resolve_paths :: "string \<Rightarrow> bool \<Rightarrow> error + (string \<times> string \<times> string)"
  url_inside_repo :: "string \<Rightarrow> bool"
  utils_relpath :: "string \<Rightarrow> string \<Rightarrow> string"
  raises :: "stage_event \<Rightarrow> error option"
  deps_version_aware :: bool

text \<open>A string is true in a condition when it is neither absent nor empty.\<close>

definition truthy :: "string option \<Rightarrow> bool" where
  "truthy s \<longleftrightarrow> (case s of None \<Rightarrow> False | Some x \<Rightarrow> x \<noteq> [])"

text \<open>The steps run in order until one raises: the steps attempted, and the exception.\<close>

fun run_steps ::
  "(stage_event \<Rightarrow> error option) \<Rightarrow> stage_event list \<Rightarrow> stage_event list \<times> error option" where
  "run_steps f [] = ([], None)"
| "run_steps f (ev # evs) =
     (case f ev of
        Some e \<Rightarrow> ([ev], Some e)
      | None \<Rightarrow> (case run_steps f evs of (done_evs, res) \<Rightarrow> (ev # done_evs, res)))"

text \<open>
  \<^verbatim>\<open>check_graph\<close> inside its \<^verbatim>\<open>try\<close>: an \<^verbatim>\<open>OutputDuplicationError\<close> is raised
  again without the new stage among its stages.
\<close>

definition raises_in_imp_url :: "imp_env \<Rightarrow> string \<Rightarrow> stage_event \<Rightarrow> error option" where
  "raises_in_imp_url env stage_name ev =
     (case raises env ev of
        Some (OutputDuplicationError output stages) \<Rightarrow>
          if ev = CheckGraph
          then Some (OutputDuplicationError output (removeAll stage_name (remdups stages)))
          else Some (OutputDuplicationError output stages)
      | res \<Rightarrow> res)"

text \<open>
  The body of \<^verbatim>\<open>imp_url\<close>: the steps attempted on the stage, and the exception
  raised, if any. The two path helpers run before the two checks of the arguments.
\<close>

definition imp_url_body :: "imp_env \<Rightarrow> imp_args \<Rightarrow> stage_event list \<times> error option" where
  "imp_url_body env a =
     (case resolve_output env (url a) (out a) of
        Inl e \<Rightarrow> ([], Some e)
      | Inr out1 \<Rightarrow>
     (case resolve_paths env out1 (to_remote a \<and> out1 = []) of
        Inl e \<Rightarrow> ([], Some e)
      | Inr (path, wdir, out2) \<Rightarrow>
          if to_remote a \<and> (no_exec a \<or> no_download a)
          then ([], Some (InvalidArgumentError
                  ''--no-exec/--no-download cannot be combined with --to-remote''))
          else if \<not> to_remote a \<and> truthy (remote a)
          then ([], Some (InvalidArgumentError
                  ''--remote can't be used without --to-remote''))
          else
            let url1 = (if erepo a = None \<and> url_inside_repo env (url a)
                        then utils_relpath env (url a) wdir else url a);
                fname1 = (case fname a of None \<Rightarrow> path
                          | Some f \<Rightarrow> if f \<noteq> [] then f else path);
                steps =
                  [Create fname1 wdir url1 out2 (version_aware a), AnnotUpdate, CheckGraph]
                  @ (if no_exec a then [IgnoreOuts]
                     else if to_remote a
                     then [GetRemoteOdb (remote a), Transfer url1, SaveDeps, ComputeMd5]
                     else [Run (no_download a)])
                  @ (if \<not> no_exec a \<and> deps_version_aware env then [SetCanPush False] else [])
                  @ [SetFrozen (frozen a), Dump]
            in run_steps (raises_in_imp_url env fname1) steps))"

text \<open>\<^verbatim>\<open>imp_url\<close> as it is called, inside \<^verbatim>\<open>locked\<close> and \<^verbatim>\<open>scm_context\<close>.\<close>

definition imp_url :: "imp_env \<Rightarrow> imp_args \<Rightarrow> stage_event list \<times> error option" where
  "imp_url env a =
     (case decorators_enter env of
        Some e \<Rightarrow> ([], Some e)
      | None \<Rightarrow>
          (case imp_url_body env a of
             (evs, Some e) \<Rightarrow> (evs, Some e)
           | (evs, None) \<Rightarrow> (evs, decorators_exit env)))"

subsection \<open>What a record emits\<close>

text \<open>
  The bucket a record goes to under its own kind, and the buckets one pass of the loop
  of \<^verbatim>\<open>_diff\<close> appends the record's path to, in order; they are used to state what
  the loop computes.
\<close>

definition kind_name :: "change \<Rightarrow> string" where
  "kind_name c = adapt_typ (typ_str (ctyp c))"

definition emits :: "bool \<Rightarrow> change \<Rightarrow> string list" where
  "emits with_missing c =
     (if skip_unchanged c \<or> skip_unknown c then []
      else (if with_missing \<and> old_missing c then [''not_in_cache''] else []) @ [kind_name c])"

text \<open>The condition under which the loop appends the record's path to \<^verbatim>\<open>not_in_cache\<close>,
  when \<^verbatim>\<open>with_missing\<close> is set.\<close>

definition reported_missing :: "change \<Rightarrow> bool" where
  "reported_missing c \<longleftrightarrow> old_missing c \<and> \<not> skip_unchanged c \<and> \<not> skip_unknown c"

definition nonempty_values :: "buckets \<Rightarrow> bool" where
  "nonempty_values d \<longleftrightarrow> (\<forall>k ps. map_of d k = Some ps \<longrightarrow> ps \<noteq> [])"

subsection \<open>Concrete inputs\<close>

text \<open>A file whose object is missing from the store, the same file cached, a directory marker.\<close>

definition ex_entry :: entry where
  "ex_entry = \<lparr>meta = Some \<lparr>isdir = False\<rparr>, hash_info = Some \<lparr>hvalue = ''d41d''\<rparr>, odb = {}\<rparr>"

definition ex_cached :: entry where
  "ex_cached = ex_entry\<lparr>odb := {''d41d''}\<rparr>"

definition ex_dir :: entry where
  "ex_dir = \<lparr>meta = Some \<lparr>isdir = True\<rparr>, hash_info = None, odb = {}\<rparr>"

definition ex_added :: change where
  "ex_added = \<lparr>key = [''data'', ''f.txt''], old = None, new = Some ex_entry, ctyp = ADD\<rparr>"

definition ex_modified :: change where
  "ex_modified =
     \<lparr>key = [''g.txt''], old = Some ex_entry,
      new = Some (ex_entry\<lparr>hash_info := Some \<lparr>hvalue = ''beef''\<rparr>\<rparr>), ctyp = MODIFY\<rparr>"

definition ex_changes :: "change list" where
  "ex_changes = [ex_added, ex_modified]"

definition ex_unchanged :: change where
  "ex_unchanged =
     \<lparr>key = [''dir'', ''a.txt''], old = Some ex_cached, new = Some ex_cached,
      ctyp = UNCHANGED\<rparr>"

definition ex_head_changes :: "change list" where
  "ex_head_changes = [ex_added, ex_unchanged]"

definition ex_snapshot :: snapshot where
  "ex_snapshot =
     [([''dir''], ex_dir), ([''dir'', ''a.txt''], ex_cached), ([''dir'', ''b.txt''], ex_cached),
      ([''dir'', ''c.txt''], ex_entry)]"

definition ex_dir_snapshot :: snapshot where
  "ex_dir_snapshot = [([''dir''], ex_dir)]"

text \<open>
  A primitive for the examples: equal snapshots give the records of the section above, any
  other pair gives the two records of \<open>ex_head_changes\<close>.
\<close>

definition ex_diff :: diff_prim where
  "ex_diff old_idx new_idx shallow =
     (if old_idx = new_idx then Inr (unchanged_records new_idx) else Inr ex_head_changes)"

text \<open>
  A repository in \<^verbatim>\<open>/scm/a/b/sub\<close> of a Git work tree \<^verbatim>\<open>/scm\<close>, used from its
  subdirectory \<^verbatim>\<open>inner\<close>; the workspace equals the index, and \<^verbatim>\<open>HEAD\<close> resolves
  to a revision with an empty index.
\<close>

definition ex_fs :: fs where
  "ex_fs =
     \<lparr>relpath = fs_path_relpath ''/scm/a/b/sub/inner'', getcwd = ''/scm/a/b/sub/inner''\<rparr>"

definition ex_scm :: scm where
  "ex_scm =
     \<lparr>is_noscm = False, scm_root_dir = ''/scm'', get_rev = Inr ''abc123'',
      scm_status = (\<lambda>u. Inr ([], [], [''a/b/sub/x.txt'', ''a/b/other.txt'']))\<rparr>"

definition ex_repo :: repo where
  "ex_repo =
     \<lparr>root_dir = ''/scm/a/b/sub'', scm = ex_scm, fs = ex_fs,
      index_data = ex_snapshot, build_data_index = Inr ex_snapshot,
      brancher = (\<lambda>head. ([(''workspace'', ex_snapshot), (''abc123'', [])], None))\<rparr>"

text \<open>The same repository before its first commit: resolving \<^verbatim>\<open>HEAD\<close> fails.\<close>

definition ex_repo_empty :: repo where
  "ex_repo_empty =
     ex_repo\<lparr>scm := ex_scm\<lparr>get_rev := Inl (ScmrepoSCMError NoCommits)\<rparr>,
             brancher :=
               (\<lambda>head. ([(''workspace'', ex_snapshot)], Some (DvcSCMError NoCommits)))\<rparr>"

text \<open>
  The repository with its commits, asked for a head that does not resolve: the brancher
  raises the \<^verbatim>\<open>SCMError\<close> of \<^verbatim>\<open>dvc.scm\<close> after the workspace state.
\<close>

definition ex_repo_bad_head :: repo where
  "ex_repo_bad_head =
     ex_repo\<lparr>brancher :=
       (\<lambda>head. if head = ''HEAD''
                then ([(''workspace'', ex_snapshot), (''abc123'', [])], None)
                else ([(''workspace'', ex_snapshot)],
                      Some (DvcSCMError (OtherCause ''unknown revision''))))\<rparr>"

definition ex_kwargs_bad_head :: kwargs where
  "ex_kwargs_bad_head =
     \<lparr>kw_head = Some ''nonexistent'', kw_granular = Some True, kw_with_missing = None\<rparr>"

text \<open>A backend that cannot read its repository, which has commits.\<close>

definition ex_scm_denied :: scm where
  "ex_scm_denied = ex_scm\<lparr>get_rev := Inl (ScmrepoSCMError (OtherCause ''permission denied''))\<rparr>"

text \<open>A brancher that fails otherwise, and one that ends after the workspace state.\<close>

definition ex_repo_broken :: repo where
  "ex_repo_broken =
     ex_repo\<lparr>brancher := (\<lambda>head. ([(''workspace'', ex_snapshot)], Some (OtherError ''io'')))\<rparr>"

definition ex_repo_no_head :: repo where
  "ex_repo_no_head = ex_repo\<lparr>brancher := (\<lambda>head. ([(''workspace'', ex_snapshot)], None))\<rparr>"

text \<open>A repository without source control, used from its root \<^verbatim>\<open>/data\<close>.\<close>

definition ex_repo_noscm :: repo where
  "ex_repo_noscm =
     \<lparr>root_dir = ''/data'',
      scm = \<lparr>is_noscm = True, scm_root_dir = ''/data'', get_rev = Inl NoSCMError,
             scm_status = (\<lambda>u. Inl NoSCMError)\<rparr>,
      fs = \<lparr>relpath = fs_path_relpath ''/data'', getcwd = ''/data''\<rparr>,
      index_data = ex_snapshot, build_data_index = Inr ex_snapshot,
      brancher = (\<lambda>head. ([(''workspace'', ex_snapshot)], Some NoSCMError))\<rparr>"

definition ex_kwargs :: kwargs where
  "ex_kwargs = \<lparr>kw_head = None, kw_granular = Some True, kw_with_missing = None\<rparr>"




section \<open>Properties\<close>

subsection \<open>The change classifier\<close>

lemma adapt_typ_not_in_cache: "adapt_typ ''not_in_cache'' = ''not_in_cache''"
  by (simp add: adapt_typ_def)

lemma adapt_typ_str_neq:
  "adapt_typ (typ_str t) \<noteq> ''not_in_cache''" "''not_in_cache'' \<noteq> adapt_typ (typ_str t)"
  by (cases t; simp add: adapt_typ_def)+

lemma map_of_add_change:
  "map_of (add_change os t c ret) =
     (map_of ret)(adapt_typ t \<mapsto> bucket ret (adapt_typ t) @ [adapt_path os c])"
  by (auto simp: add_change_def Let_def bucket_def update_conv' fun_eq_iff split: option.splits)

lemma bucket_add_change:
  "bucket (add_change os t c ret) k =
     (if k = adapt_typ t then bucket ret k @ [adapt_path os c] else bucket ret k)"
  by (simp add: bucket_def map_of_add_change)

lemma key_add_change:
  "map_of (add_change os t c ret) k = None \<longleftrightarrow> k \<noteq> adapt_typ t \<and> map_of ret k = None"
  by (simp add: map_of_add_change)

lemma distinct_add_change:
  "distinct (map fst ret) \<Longrightarrow> distinct (map fst (add_change os t c ret))"
  by (simp add: add_change_def Let_def distinct_update)

lemma nonempty_add_change:
  "nonempty_values ret \<Longrightarrow> nonempty_values (add_change os t c ret)"
  by (simp add: nonempty_values_def map_of_add_change)

lemma distinct_diff_loop:
  "distinct (map fst ret) \<Longrightarrow> distinct (map fst (diff_loop os wm cs ret))"
  by (induction cs arbitrary: ret) (simp_all add: Let_def distinct_add_change)

lemma nonempty_diff_loop:
  "nonempty_values ret \<Longrightarrow> nonempty_values (diff_loop os wm cs ret)"
  by (induction cs arbitrary: ret) (simp_all add: Let_def nonempty_add_change)

text \<open>The three ways one pass of the loop goes.\<close>

lemma diff_loop_skip:
  "skip_unchanged c \<or> skip_unknown c \<Longrightarrow>
   diff_loop os wm (c # cs) ret = diff_loop os wm cs ret"
  by auto

lemma diff_loop_missing:
  "\<not> (skip_unchanged c \<or> skip_unknown c) \<Longrightarrow> wm \<and> old_missing c \<Longrightarrow>
   diff_loop os wm (c # cs) ret =
     diff_loop os wm cs
       (add_change os (typ_str (ctyp c)) c (add_change os ''not_in_cache'' c ret))"
  by (auto simp: Let_def)

lemma diff_loop_plain:
  "\<not> (skip_unchanged c \<or> skip_unknown c) \<Longrightarrow> \<not> (wm \<and> old_missing c) \<Longrightarrow>
   diff_loop os wm (c # cs) ret =
     diff_loop os wm cs (add_change os (typ_str (ctyp c)) c ret)"
  by (auto simp: Let_def)

text \<open>Each bucket lists the paths of the records that emit into it, in the order of the records.\<close>

lemma bucket_diff_loop:
  "bucket (diff_loop os wm cs ret) k =
     bucket ret k @ map (adapt_path os) (filter (\<lambda>c. k \<in> set (emits wm c)) cs)"
proof (induction cs arbitrary: ret)
  case Nil
  then show ?case by simp
next
  case (Cons c cs)
  consider (skip) "skip_unchanged c \<or> skip_unknown c"
    | (missing) "\<not> (skip_unchanged c \<or> skip_unknown c)" "wm \<and> old_missing c"
    | (plain) "\<not> (skip_unchanged c \<or> skip_unknown c)" "\<not> (wm \<and> old_missing c)"
    by blast
  then show ?case
  proof cases
    case skip
    then have eq: "diff_loop os wm (c # cs) ret = diff_loop os wm cs ret"
      by (rule diff_loop_skip)
    show ?thesis
      unfolding eq Cons.IH using skip by (simp add: emits_def)
  next
    case missing
    then have eq: "diff_loop os wm (c # cs) ret =
        diff_loop os wm cs
          (add_change os (typ_str (ctyp c)) c (add_change os ''not_in_cache'' c ret))"
      by (rule diff_loop_missing)
    show ?thesis
      unfolding eq Cons.IH using missing
      by (auto simp add: emits_def bucket_add_change adapt_typ_not_in_cache kind_name_def
          adapt_typ_str_neq)
  next
    case plain
    then have eq: "diff_loop os wm (c # cs) ret =
        diff_loop os wm cs (add_change os (typ_str (ctyp c)) c ret)"
      by (rule diff_loop_plain)
    show ?thesis
      unfolding eq Cons.IH using plain
      by (auto simp add: emits_def bucket_add_change kind_name_def)
  qed
qed

text \<open>A key is absent exactly when no record emits into it.\<close>

lemma key_diff_loop:
  "map_of (diff_loop os wm cs ret) k = None \<longleftrightarrow>
     map_of ret k = None \<and> filter (\<lambda>c. k \<in> set (emits wm c)) cs = []"
proof (induction cs arbitrary: ret)
  case Nil
  then show ?case by simp
next
  case (Cons c cs)
  consider (skip) "skip_unchanged c \<or> skip_unknown c"
    | (missing) "\<not> (skip_unchanged c \<or> skip_unknown c)" "wm \<and> old_missing c"
    | (plain) "\<not> (skip_unchanged c \<or> skip_unknown c)" "\<not> (wm \<and> old_missing c)"
    by blast
  then show ?case
  proof cases
    case skip
    then have eq: "diff_loop os wm (c # cs) ret = diff_loop os wm cs ret"
      by (rule diff_loop_skip)
    show ?thesis
      unfolding eq Cons.IH using skip by (simp add: emits_def)
  next
    case missing
    then have eq: "diff_loop os wm (c # cs) ret =
        diff_loop os wm cs
          (add_change os (typ_str (ctyp c)) c (add_change os ''not_in_cache'' c ret))"
      by (rule diff_loop_missing)
    show ?thesis
      unfolding eq Cons.IH using missing
      by (auto simp add: emits_def key_add_change adapt_typ_not_in_cache kind_name_def
          adapt_typ_str_neq)
  next
    case plain
    then have eq: "diff_loop os wm (c # cs) ret =
        diff_loop os wm cs (add_change os (typ_str (ctyp c)) c ret)"
      by (rule diff_loop_plain)
    show ?thesis
      unfolding eq Cons.IH using plain
      by (auto simp add: emits_def key_add_change kind_name_def)
  qed
qed

lemma data_diff_Inr:
  "data_diff os diff old_idx new_idx granular wm = Inr ret \<longleftrightarrow>
     (\<exists>changes. diff old_idx new_idx (\<not> granular) = Inr changes
        \<and> ret = diff_loop os wm changes [])"
  by (auto simp: data_diff_def split: sum.splits)

lemma data_diff_distinct:
  "data_diff os diff old_idx new_idx granular wm = Inr ret \<Longrightarrow> distinct (map fst ret)"
  by (auto simp: data_diff_Inr intro: distinct_diff_loop)

text \<open>
  C9. Whatever the snapshots and the flags \<^verbatim>\<open>granular\<close> and \<^verbatim>\<open>with_missing\<close>,
  every list in the mapping \<^verbatim>\<open>_diff\<close> returns is non-empty: a key is created only
  when a path is appended under it.
\<close>

theorem diff_values_nonempty:
  assumes "data_diff os diff old_idx new_idx granular with_missing = Inr ret"
    and "(k, ps) \<in> set ret"
  shows "ps \<noteq> []"
proof -
  from assms(1) obtain changes where ret: "ret = diff_loop os with_missing changes []"
    by (auto simp: data_diff_Inr)
  have "distinct (map fst ret)"
    using assms(1) by (rule data_diff_distinct)
  with assms(2) have "map_of ret k = Some ps"
    by simp
  moreover have "nonempty_values ret"
    unfolding ret by (rule nonempty_diff_loop) (simp add: nonempty_values_def)
  ultimately show ?thesis
    by (simp add: nonempty_values_def)
qed

lemma ex_changes_diff:
  "data_diff posix (diff_yielding ex_changes) [] [] False True =
     Inr [(''added'', [''data/f.txt'']), (''not_in_cache'', [''g.txt'']),
          (''modified'', [''g.txt''])]"
  by code_simp

theorem diff_values_nonempty_witness:
  "data_diff posix (diff_yielding ex_changes) [] [] False True =
     Inr [(''added'', [''data/f.txt'']), (''not_in_cache'', [''g.txt'']),
          (''modified'', [''g.txt''])]
   \<and> (''not_in_cache'', [''g.txt'']) \<in>
       set [(''added'', [''data/f.txt'']), (''not_in_cache'', [''g.txt'']),
            (''modified'', [''g.txt''])]
   \<and> [''g.txt''] \<noteq> []"
proof -
  have member: "(''not_in_cache'', [''g.txt'']) \<in>
       set [(''added'', [''data/f.txt'']), (''not_in_cache'', [''g.txt'']),
            (''modified'', [''g.txt''])]"
    by simp
  from diff_values_nonempty [OF ex_changes_diff member] ex_changes_diff member
  show ?thesis by simp
qed

lemma bucket_Nil: "bucket [] k = []"
  by (simp add: bucket_def)

lemma bucket_data_diff:
  assumes "diff old_idx new_idx (\<not> granular) = Inr changes"
  shows "data_diff os diff old_idx new_idx granular wm = Inr (diff_loop os wm changes [])"
    and "bucket (diff_loop os wm changes []) k =
      map (adapt_path os) (filter (\<lambda>c. k \<in> set (emits wm c)) changes)"
  using assms by (simp_all add: data_diff_def bucket_diff_loop bucket_Nil)

lemma old_missing_iff:
  "old_missing c \<longleftrightarrow>
     (\<exists>oe h. old c = Some oe \<and> hash_info oe = Some h \<and> \<not> odb_exists (odb oe) (hvalue h))"
  by (auto simp: old_missing_def split: option.splits)

lemma emits_not_in_cache:
  "''not_in_cache'' \<in> set (emits wm c) \<longleftrightarrow> wm \<and> reported_missing c"
  by (auto simp: emits_def kind_name_def adapt_typ_str_neq reported_missing_def)

lemma emits_kind_name:
  "kind_name c \<in> set (emits wm c) \<longleftrightarrow> \<not> skip_unchanged c \<and> \<not> skip_unknown c"
  by (auto simp: emits_def)

text \<open>
  C2. With \<^verbatim>\<open>with_missing=true\<close>, the \<^verbatim>\<open>not_in_cache\<close> bucket lists exactly the
  paths of the records that pass the two suppression rules and whose \<^verbatim>\<open>old\<close> entry
  exists and carries a hash the object store does not have. Each such record is also
  emitted into the bucket of its own kind, and a record without \<^verbatim>\<open>old\<close> entry is
  never among them.
\<close>

theorem not_in_cache_from_missing_old:
  assumes "data_diff os diff old_idx new_idx granular True = Inr ret"
  shows "\<exists>changes. diff old_idx new_idx (\<not> granular) = Inr changes \<and>
     bucket ret ''not_in_cache'' = map (adapt_path os) (filter reported_missing changes) \<and>
     (\<forall>c \<in> set changes. reported_missing c \<longrightarrow>
        (\<exists>oe h. old c = Some oe \<and> hash_info oe = Some h \<and> \<not> odb_exists (odb oe) (hvalue h))
        \<and> adapt_path os c \<in> set (bucket ret (kind_name c))) \<and>
     (\<forall>c \<in> set changes. old c = None \<longrightarrow> \<not> reported_missing c)"
proof -
  from assms obtain changes where ch: "diff old_idx new_idx (\<not> granular) = Inr changes"
    and ret: "ret = diff_loop os True changes []"
    by (auto simp: data_diff_Inr)
  have b: "bucket ret k = map (adapt_path os) (filter (\<lambda>c. k \<in> set (emits True c)) changes)"
    for k
    unfolding ret using ch by (rule bucket_data_diff(2))
  have "bucket ret ''not_in_cache'' = map (adapt_path os) (filter reported_missing changes)"
    by (simp add: b emits_not_in_cache)
  moreover have "adapt_path os c \<in> set (bucket ret (kind_name c))"
    if "c \<in> set changes" "reported_missing c" for c
    using that by (simp add: b emits_kind_name reported_missing_def)
  moreover have
    "\<exists>oe h. old c = Some oe \<and> hash_info oe = Some h \<and> \<not> odb_exists (odb oe) (hvalue h)"
    if "reported_missing c" for c
    using that by (simp add: reported_missing_def old_missing_iff)
  moreover have "\<not> reported_missing c" if "old c = None" for c
    using that by (simp add: reported_missing_def old_missing_def)
  ultimately show ?thesis
    using ch by blast
qed

lemma ex_modified_missing:
  "reported_missing ex_modified" "old ex_modified = Some ex_entry"
  "hash_info ex_entry = Some \<lparr>hvalue = ''d41d''\<rparr>" "\<not> odb_exists (odb ex_entry) ''d41d''"
  "kind_name ex_modified = ''modified''" "adapt_path posix ex_modified = ''g.txt''"
  by (simp_all add: reported_missing_def old_missing_def skip_unchanged_def skip_unknown_def
      ex_modified_def ex_entry_def odb_exists_def kind_name_def adapt_typ_def adapt_path_def
      entry_meta_def os_sep_def)

lemma ex_added_new:
  "old ex_added = None" "\<not> reported_missing ex_added"
  by (simp_all add: reported_missing_def old_missing_def ex_added_def)

theorem not_in_cache_from_missing_old_witness:
  "data_diff posix (diff_yielding ex_changes) [] [] False True =
     Inr [(''added'', [''data/f.txt'']), (''not_in_cache'', [''g.txt'']),
          (''modified'', [''g.txt''])]
   \<and> ex_modified \<in> set ex_changes \<and> reported_missing ex_modified
   \<and> old ex_modified = Some ex_entry \<and> hash_info ex_entry = Some \<lparr>hvalue = ''d41d''\<rparr>
   \<and> \<not> odb_exists (odb ex_entry) ''d41d''
   \<and> adapt_path posix ex_modified \<in>
       set (bucket [(''added'', [''data/f.txt'']), (''not_in_cache'', [''g.txt'']),
                    (''modified'', [''g.txt''])] (kind_name ex_modified))
   \<and> ex_added \<in> set ex_changes \<and> old ex_added = None \<and> \<not> reported_missing ex_added"
proof -
  from not_in_cache_from_missing_old [OF ex_changes_diff]
  obtain changes where ch: "diff_yielding ex_changes [] [] (\<not> False) = Inr changes"
    and emitted: "\<forall>c \<in> set changes. reported_missing c \<longrightarrow>
        adapt_path posix c \<in>
          set (bucket [(''added'', [''data/f.txt'']), (''not_in_cache'', [''g.txt'']),
                       (''modified'', [''g.txt''])] (kind_name c))"
    by blast
  from ch have changes: "changes = ex_changes"
    by (simp add: diff_yielding_def)
  have member: "ex_modified \<in> set ex_changes" "ex_added \<in> set ex_changes"
    by (simp_all add: ex_changes_def)
  from emitted member(1) ex_modified_missing(1)
  have "adapt_path posix ex_modified \<in>
      set (bucket [(''added'', [''data/f.txt'']), (''not_in_cache'', [''g.txt'']),
                   (''modified'', [''g.txt''])] (kind_name ex_modified))"
    unfolding changes by blast
  with ex_changes_diff member ex_modified_missing ex_added_new show ?thesis
    by simp
qed

text \<open>Equal snapshots: what the records of \<open>unchanged_records\<close> emit.\<close>

lemma emits_unchanged_record:
  "''unchanged'' \<in> set (emits wm \<lparr>key = k, old = Some e, new = Some e, ctyp = UNCHANGED\<rparr>)
     \<longleftrightarrow> has_hash e"
  "t \<in> set (emits wm \<lparr>key = k, old = Some e, new = Some e, ctyp = UNCHANGED\<rparr>)
     \<Longrightarrow> t = ''unchanged'' \<or> (wm \<and> t = ''not_in_cache'')"
  by (auto simp: emits_def skip_unchanged_def skip_unknown_def kind_name_def adapt_typ_def
      split: if_splits)

lemma filter_unchanged_records:
  "filter (\<lambda>c. ''unchanged'' \<in> set (emits wm c)) (unchanged_records snap) =
     unchanged_records (filter (\<lambda>(k, e). has_hash e) snap)"
  by (induction snap) (auto simp: unchanged_records_def emits_unchanged_record(1))

lemma filter_other_unchanged_records:
  assumes "t \<noteq> ''unchanged''" and "wm \<longrightarrow> t \<noteq> ''not_in_cache''"
  shows "filter (\<lambda>c. t \<in> set (emits wm c)) (unchanged_records snap) = []"
  using assms
  by (auto simp: unchanged_records_def filter_empty_conv dest: emits_unchanged_record(2))

lemma distinct_hashed_paths:
  assumes "distinct (map (adapt_path os) (unchanged_records snap))"
  shows "distinct (map (adapt_path os) (unchanged_records (filter P snap)))"
proof -
  from assms have "distinct (map (\<lambda>x. adapt_path os
      (case x of (k, e) \<Rightarrow> \<lparr>key = k, old = Some e, new = Some e, ctyp = UNCHANGED\<rparr>)) snap)"
    by (simp add: unchanged_records_def comp_def)
  then have "distinct (map (\<lambda>x. adapt_path os
      (case x of (k, e) \<Rightarrow> \<lparr>key = k, old = Some e, new = Some e, ctyp = UNCHANGED\<rparr>))
      (filter P snap))"
    by (rule distinct_map_filter)
  then show ?thesis
    by (simp add: unchanged_records_def comp_def)
qed

text \<open>
  C3, as the code has it. For equal snapshots, for which the primitive yields one
  \<^verbatim>\<open>UNCHANGED\<close> record per entry, classifying with \<^verbatim>\<open>granular=true\<close> gives a
  mapping with no kind other than \<^verbatim>\<open>unchanged\<close> (beside \<^verbatim>\<open>not_in_cache\<close> when
  \<^verbatim>\<open>with_missing\<close> is set), and the \<^verbatim>\<open>unchanged\<close> bucket lists, in the snapshot's
  order, one path for each entry that carries a content hash: the first suppression rule
  drops the entries without one. When the paths of the entries are pairwise different, no
  path is listed twice.
\<close>

theorem equal_snapshots_unchanged_hashed:
  assumes "diff snap snap False = Inr (unchanged_records snap)"
  shows "\<exists>ret. data_diff os diff snap snap True with_missing = Inr ret
     \<and> (\<forall>t. t \<noteq> ''unchanged'' \<longrightarrow> (with_missing \<longrightarrow> t \<noteq> ''not_in_cache'') \<longrightarrow>
           map_of ret t = None)
     \<and> bucket ret ''unchanged'' =
         map (adapt_path os) (unchanged_records (filter (\<lambda>(k, e). has_hash e) snap))
     \<and> (distinct (map (adapt_path os) (unchanged_records snap)) \<longrightarrow>
           distinct (bucket ret ''unchanged''))"
proof -
  let ?ret = "diff_loop os with_missing (unchanged_records snap) []"
  from assms have "diff snap snap (\<not> True) = Inr (unchanged_records snap)"
    by simp
  then have "data_diff os diff snap snap True with_missing = Inr ?ret"
    and b: "\<And>t. bucket ?ret t =
      map (adapt_path os)
        (filter (\<lambda>c. t \<in> set (emits with_missing c)) (unchanged_records snap))"
    by (rule bucket_data_diff)+
  moreover have "map_of ?ret t = None"
    if "t \<noteq> ''unchanged''" "with_missing \<longrightarrow> t \<noteq> ''not_in_cache''" for t
    using that by (simp add: key_diff_loop filter_other_unchanged_records)
  moreover have hashed: "bucket ?ret ''unchanged'' =
      map (adapt_path os) (unchanged_records (filter (\<lambda>(k, e). has_hash e) snap))"
    by (simp add: b filter_unchanged_records)
  moreover have "distinct (bucket ?ret ''unchanged'')"
    if "distinct (map (adapt_path os) (unchanged_records snap))"
    unfolding hashed using that by (rule distinct_hashed_paths)
  ultimately show ?thesis
    by blast
qed

lemma ex_snapshot_diff:
  "data_diff posix (diff_yielding (unchanged_records ex_snapshot)) ex_snapshot ex_snapshot
     True False = Inr [(''unchanged'', [''dir/a.txt'', ''dir/b.txt'', ''dir/c.txt''])]"
  by code_simp

lemma ex_snapshot_paths:
  "map (adapt_path posix) (unchanged_records ex_snapshot) =
     [''dir/'', ''dir/a.txt'', ''dir/b.txt'', ''dir/c.txt'']"
  "map (adapt_path posix) (unchanged_records (filter (\<lambda>(k, e). has_hash e) ex_snapshot)) =
     [''dir/a.txt'', ''dir/b.txt'', ''dir/c.txt'']"
  by code_simp+

theorem equal_snapshots_unchanged_hashed_witness:
  "diff_yielding (unchanged_records ex_snapshot) ex_snapshot ex_snapshot False =
     Inr (unchanged_records ex_snapshot)
   \<and> data_diff posix (diff_yielding (unchanged_records ex_snapshot)) ex_snapshot ex_snapshot
       True False = Inr [(''unchanged'', [''dir/a.txt'', ''dir/b.txt'', ''dir/c.txt''])]
   \<and> map_of [(''unchanged'', [''dir/a.txt'', ''dir/b.txt'', ''dir/c.txt''])] ''added'' = None
   \<and> map (adapt_path posix) (unchanged_records (filter (\<lambda>(k, e). has_hash e) ex_snapshot)) =
       [''dir/a.txt'', ''dir/b.txt'', ''dir/c.txt'']
   \<and> distinct (map (adapt_path posix) (unchanged_records ex_snapshot))
   \<and> distinct (bucket [(''unchanged'', [''dir/a.txt'', ''dir/b.txt'', ''dir/c.txt''])]
         ''unchanged'')"
proof -
  have prim: "diff_yielding (unchanged_records ex_snapshot) ex_snapshot ex_snapshot False =
      Inr (unchanged_records ex_snapshot)"
    by (simp add: diff_yielding_def)
  have paths: "distinct (map (adapt_path posix) (unchanged_records ex_snapshot))"
    by (simp add: ex_snapshot_paths(1))
  from equal_snapshots_unchanged_hashed
    [of "diff_yielding (unchanged_records ex_snapshot)" ex_snapshot posix False, OF prim]
  obtain ret where ret: "data_diff posix (diff_yielding (unchanged_records ex_snapshot))
      ex_snapshot ex_snapshot True False = Inr ret"
    and once: "distinct (map (adapt_path posix) (unchanged_records ex_snapshot)) \<longrightarrow>
      distinct (bucket ret ''unchanged'')"
    by blast
  from ret have "ret = [(''unchanged'', [''dir/a.txt'', ''dir/b.txt'', ''dir/c.txt''])]"
    by (simp add: ex_snapshot_diff)
  with once paths
  have "distinct (bucket [(''unchanged'', [''dir/a.txt'', ''dir/b.txt'', ''dir/c.txt''])]
      ''unchanged'')"
    by blast
  with prim ex_snapshot_diff ex_snapshot_paths(2) paths show ?thesis
    by simp
qed

text \<open>
  The claim C3 as it is written fails: a snapshot whose only entry is a directory marker
  without a content hash, compared with itself, gives the empty mapping, so the path
  \<^verbatim>\<open>dir/\<close> of its entry is not in the \<^verbatim>\<open>unchanged\<close> bucket.
\<close>

theorem equal_snapshots_unchanged_counterexample:
  "data_diff posix (diff_yielding (unchanged_records ex_dir_snapshot))
     ex_dir_snapshot ex_dir_snapshot True False = Inr []
   \<and> map (adapt_path posix) (unchanged_records ex_dir_snapshot) = [''dir/'']
   \<and> ''dir/'' \<notin> set (bucket [] ''unchanged'')"
proof -
  have "data_diff posix (diff_yielding (unchanged_records ex_dir_snapshot))
     ex_dir_snapshot ex_dir_snapshot True False = Inr []"
    by code_simp
  moreover have "map (adapt_path posix) (unchanged_records ex_dir_snapshot) = [''dir/'']"
    by code_simp
  ultimately show ?thesis
    by (simp add: bucket_Nil)
qed

subsection \<open>The status aggregator\<close>

lemma dict_pop_fst: "fst (dict_pop d k) = bucket d k"
  by (simp add: dict_pop_def bucket_def split: option.splits)

lemma dict_pop_keys: "fst ` set (snd (dict_pop d k)) = fst ` set d - {k}"
proof (cases "map_of d k")
  case None
  then have "k \<notin> fst ` set d"
    by (simp add: map_of_eq_None_iff)
  with None show ?thesis
    by (simp add: dict_pop_def)
next
  case (Some ps)
  have "set (map fst (AList.delete k d)) = set (map fst d) - {k}"
    by (simp only: delete_keys set_removeAll)
  with Some show ?thesis
    by (simp add: dict_pop_def)
qed

lemma dict_pop_map_of: "map_of (snd (dict_pop d k)) = (map_of d)(k := None)"
  by (auto simp: dict_pop_def delete_conv' fun_eq_iff split: option.splits)

lemma dict_pop_bucket_other: "k' \<noteq> k \<Longrightarrow> bucket (snd (dict_pop d k)) k' = bucket d k'"
  by (simp add: bucket_def dict_pop_map_of)

text \<open>\<^verbatim>\<open>status\<close> with its two \<^verbatim>\<open>pop\<close>s written out.\<close>

lemma status_unfold:
  "status os diff r uf kwargs0 =
     (case diff_index_to_wtree os diff r (snd (pop_head kwargs0)) of
        Inl e \<Rightarrow> Inl e
      | Inr ud \<Rightarrow>
          (case committed_step
                  (diff_head_to_index os diff r (fst (pop_head kwargs0)) (snd (pop_head kwargs0)))
                  (set (bucket ud ''unchanged'')) of
             Inl e \<Rightarrow> Inl e
           | Inr (cd, unch) \<Rightarrow>
               (case git_info os (scm r) uf of
                  Inl e \<Rightarrow> Inl e
                | Inr gi \<Rightarrow>
                    (case transform_git_paths_to_dvc os r (get_untracked gi) of
                       Inl e \<Rightarrow> Inl e
                     | Inr ut \<Rightarrow>
                         Inr \<lparr>not_in_cache = bucket ud ''not_in_cache'', committed = cd,
                              uncommitted =
                                snd (dict_pop (snd (dict_pop ud ''not_in_cache'')) ''unchanged''),
                              untracked = ut, unchanged = unch, git = gi\<rparr>))))"
proof -
  obtain head kw where pk: "pop_head kwargs0 = (head, kw)"
    by (cases "pop_head kwargs0")
  show ?thesis
  proof (cases "diff_index_to_wtree os diff r kw")
    case (Inl e)
    then show ?thesis by (simp add: status_def pk)
  next
    case (Inr ud)
    define d1 where "d1 = snd (dict_pop ud ''not_in_cache'')"
    define d2 where "d2 = snd (dict_pop d1 ''unchanged'')"
    have p1: "dict_pop ud ''not_in_cache'' = (bucket ud ''not_in_cache'', d1)"
      by (simp add: d1_def dict_pop_fst [symmetric])
    have "bucket d1 ''unchanged'' = bucket ud ''unchanged''"
      by (simp add: d1_def dict_pop_bucket_other)
    then have p2: "dict_pop d1 ''unchanged'' = (bucket ud ''unchanged'', d2)"
      using dict_pop_fst [of d1 "''unchanged''"] by (simp add: d2_def prod_eq_iff)
    have "status os diff r uf kwargs0 =
      (case committed_step (diff_head_to_index os diff r head kw)
              (set (bucket ud ''unchanged'')) of
         Inl e \<Rightarrow> Inl e
       | Inr (cd, unch) \<Rightarrow>
           (case git_info os (scm r) uf of
              Inl e \<Rightarrow> Inl e
            | Inr gi \<Rightarrow>
                (case transform_git_paths_to_dvc os r (get_untracked gi) of
                   Inl e \<Rightarrow> Inl e
                 | Inr ut \<Rightarrow>
                     Inr \<lparr>not_in_cache = bucket ud ''not_in_cache'', committed = cd,
                          uncommitted = d2, untracked = ut, unchanged = unch, git = gi\<rparr>)))"
      unfolding status_def pk using Inr by (simp add: p1 p2)
    then show ?thesis
      unfolding d2_def d1_def using Inr by (simp add: pk)
  qed
qed

lemma status_Inr:
  "status os diff r uf kwargs0 = Inr rep \<longleftrightarrow>
     (\<exists>ud cd unch gi ut.
        diff_index_to_wtree os diff r (snd (pop_head kwargs0)) = Inr ud \<and>
        committed_step
          (diff_head_to_index os diff r (fst (pop_head kwargs0)) (snd (pop_head kwargs0)))
          (set (bucket ud ''unchanged'')) = Inr (cd, unch) \<and>
        git_info os (scm r) uf = Inr gi \<and>
        transform_git_paths_to_dvc os r (get_untracked gi) = Inr ut \<and>
        rep = \<lparr>not_in_cache = bucket ud ''not_in_cache'', committed = cd,
               uncommitted = snd (dict_pop (snd (dict_pop ud ''not_in_cache'')) ''unchanged''),
               untracked = ut, unchanged = unch, git = gi\<rparr>)"
  by (auto simp: status_unfold split: sum.splits prod.splits)

lemma caught_by_status_iff:
  "caught_by_status e \<longleftrightarrow> (\<exists>c. e = DvcSCMError c) \<or> e = NoSCMError"
  by (cases e) (simp_all add: caught_by_status_def)

lemma is_scmrepo_scm_error_iff: "is_scmrepo_scm_error e \<longleftrightarrow> (\<exists>c. e = ScmrepoSCMError c)"
  by (cases e) (simp_all add: is_scmrepo_scm_error_def)

lemma committed_step_Inr:
  "committed_step res u = Inr (cd, unch) \<longleftrightarrow>
     (\<exists>e. res = Inl e \<and> caught_by_status e \<and> cd = [] \<and> unch = u) \<or>
     (\<exists>cd0. res = Inr cd0 \<and> cd = snd (dict_pop cd0 ''unchanged'')
        \<and> unch = u \<inter> set (bucket cd0 ''unchanged''))"
  by (cases res) (auto simp: committed_step_def dict_pop_fst [symmetric] split: prod.splits)

lemma committed_step_Inl:
  "committed_step res u = Inl e \<longleftrightarrow> res = Inl e \<and> \<not> caught_by_status e"
  by (cases res) (auto simp: committed_step_def split: prod.splits)

lemma status_propagates:
  assumes "diff_index_to_wtree os diff r (snd (pop_head kwargs0)) = Inr ud"
    and "diff_head_to_index os diff r (fst (pop_head kwargs0)) (snd (pop_head kwargs0)) = Inl e"
    and "\<not> caught_by_status e"
  shows "status os diff r untracked_files kwargs0 = Inl e"
proof -
  from assms(2,3) have "committed_step
      (diff_head_to_index os diff r (fst (pop_head kwargs0)) (snd (pop_head kwargs0)))
      (set (bucket ud ''unchanged'')) = Inl e"
    by (simp add: committed_step_Inl)
  with assms(1) show ?thesis
    by (simp add: status_unfold)
qed

text \<open>The example repositories, evaluated.\<close>

lemma ex_pop_head: "pop_head ex_kwargs = (''HEAD'', ex_kwargs)"
  by (simp add: pop_head_def ex_kwargs_def)

lemma ex_uncommitted:
  "diff_index_to_wtree posix ex_diff ex_repo ex_kwargs =
     Inr [(''unchanged'', [''dir/a.txt'', ''dir/b.txt'', ''dir/c.txt'']),
          (''not_in_cache'', [''dir/c.txt''])]"
  "diff_index_to_wtree posix ex_diff ex_repo_empty ex_kwargs =
     Inr [(''unchanged'', [''dir/a.txt'', ''dir/b.txt'', ''dir/c.txt'']),
          (''not_in_cache'', [''dir/c.txt''])]"
  "diff_index_to_wtree posix ex_diff ex_repo_broken ex_kwargs =
     Inr [(''unchanged'', [''dir/a.txt'', ''dir/b.txt'', ''dir/c.txt'']),
          (''not_in_cache'', [''dir/c.txt''])]"
  "diff_index_to_wtree posix ex_diff ex_repo_no_head ex_kwargs =
     Inr [(''unchanged'', [''dir/a.txt'', ''dir/b.txt'', ''dir/c.txt'']),
          (''not_in_cache'', [''dir/c.txt''])]"
  by code_simp+

lemma ex_committed:
  "diff_head_to_index posix ex_diff ex_repo ''HEAD'' ex_kwargs =
     Inr [(''added'', [''data/f.txt'']), (''unchanged'', [''dir/a.txt''])]"
  "diff_head_to_index posix ex_diff ex_repo_empty ''HEAD'' ex_kwargs =
     Inl (DvcSCMError NoCommits)"
  "diff_head_to_index posix ex_diff ex_repo_broken ''HEAD'' ex_kwargs = Inl (OtherError ''io'')"
  by code_simp+

lemma ex_git_info:
  "git_info posix (scm ex_repo_empty) ''all'' =
     Inr (Some \<lparr>git_staged = [], git_unstaged = [],
                git_untracked = [''a/b/sub/x.txt'', ''a/b/other.txt''],
                git_is_empty = True, git_is_dirty = True\<rparr>)"
  by code_simp

lemma ex_untracked:
  "transform_git_paths_to_dvc posix ex_repo_empty
     (get_untracked (Some \<lparr>git_staged = [], git_unstaged = [],
                git_untracked = [''a/b/sub/x.txt'', ''a/b/other.txt''],
                git_is_empty = True, git_is_dirty = True\<rparr>)) = Inr [''../x.txt'']"
  by code_simp

lemma ex_status:
  "status posix ex_diff ex_repo ''all'' ex_kwargs =
     Inr \<lparr>not_in_cache = [''dir/c.txt''], committed = [(''added'', [''data/f.txt''])], uncommitted = [],
          untracked = [''../x.txt''], unchanged = {''dir/a.txt''},
          git = Some \<lparr>git_staged = [], git_unstaged = [],
                       git_untracked = [''a/b/sub/x.txt'', ''a/b/other.txt''],
                       git_is_empty = False, git_is_dirty = True\<rparr>\<rparr>"
  by code_simp

lemma ex_status_empty:
  "status posix ex_diff ex_repo_empty ''all'' ex_kwargs =
     Inr \<lparr>not_in_cache = [''dir/c.txt''], committed = [], uncommitted = [],
          untracked = [''../x.txt''], unchanged = {''dir/a.txt'', ''dir/b.txt'', ''dir/c.txt''},
          git = Some \<lparr>git_staged = [], git_unstaged = [],
                       git_untracked = [''a/b/sub/x.txt'', ''a/b/other.txt''],
                       git_is_empty = True, git_is_dirty = True\<rparr>\<rparr>"
  by code_simp

text \<open>
  C1. In every report \<^verbatim>\<open>status\<close> returns, \<^verbatim>\<open>unchanged\<close> is the intersection of
  the \<^verbatim>\<open>unchanged\<close> bucket of the uncommitted diff with the one of the committed
  diff; when the committed diff was not available, because of a \<^verbatim>\<open>NoSCMError\<close> (no
  backend) or an \<^verbatim>\<open>SCMError\<close> of \<^verbatim>\<open>dvc.scm\<close> (as when there are no commits),
  it is the bucket of the uncommitted diff alone.
\<close>

theorem status_unchanged_intersection:
  assumes "status os diff r untracked_files kwargs0 = Inr rep"
  shows "\<exists>ud. diff_index_to_wtree os diff r (snd (pop_head kwargs0)) = Inr ud \<and>
     (case diff_head_to_index os diff r (fst (pop_head kwargs0)) (snd (pop_head kwargs0)) of
        Inr cd \<Rightarrow> unchanged rep = set (bucket ud ''unchanged'') \<inter> set (bucket cd ''unchanged'')
      | Inl e \<Rightarrow> ((\<exists>c. e = DvcSCMError c) \<or> e = NoSCMError)
                 \<and> unchanged rep = set (bucket ud ''unchanged''))"
  using assms by (auto simp: status_Inr committed_step_Inr caught_by_status_iff)

theorem status_unchanged_intersection_witness:
  "status posix ex_diff ex_repo ''all'' ex_kwargs =
     Inr \<lparr>not_in_cache = [''dir/c.txt''], committed = [(''added'', [''data/f.txt''])], uncommitted = [],
          untracked = [''../x.txt''], unchanged = {''dir/a.txt''},
          git = Some \<lparr>git_staged = [], git_unstaged = [],
                       git_untracked = [''a/b/sub/x.txt'', ''a/b/other.txt''],
                       git_is_empty = False, git_is_dirty = True\<rparr>\<rparr>
   \<and> {''dir/a.txt''} =
       set (bucket [(''unchanged'', [''dir/a.txt'', ''dir/b.txt'', ''dir/c.txt'']),
          (''not_in_cache'', [''dir/c.txt''])] ''unchanged'')
       \<inter> set (bucket [(''added'', [''data/f.txt'']), (''unchanged'', [''dir/a.txt''])]
                  ''unchanged'')
   \<and> diff_head_to_index posix ex_diff ex_repo_empty ''HEAD'' ex_kwargs =
       Inl (DvcSCMError NoCommits)
   \<and> (\<exists>rep. status posix ex_diff ex_repo_empty ''all'' ex_kwargs = Inr rep
         \<and> unchanged rep =
             set (bucket [(''unchanged'', [''dir/a.txt'', ''dir/b.txt'', ''dir/c.txt'']),
          (''not_in_cache'', [''dir/c.txt''])] ''unchanged''))"
proof -
  from status_unchanged_intersection [OF ex_status]
  have "{''dir/a.txt''} =
       set (bucket [(''unchanged'', [''dir/a.txt'', ''dir/b.txt'', ''dir/c.txt'']),
          (''not_in_cache'', [''dir/c.txt''])] ''unchanged'')
       \<inter> set (bucket [(''added'', [''data/f.txt'']), (''unchanged'', [''dir/a.txt''])]
                  ''unchanged'')"
    by (simp add: ex_pop_head ex_uncommitted ex_committed)
  moreover from status_unchanged_intersection [OF ex_status_empty]
  have "{''dir/a.txt'', ''dir/b.txt'', ''dir/c.txt''} =
       set (bucket [(''unchanged'', [''dir/a.txt'', ''dir/b.txt'', ''dir/c.txt'']),
          (''not_in_cache'', [''dir/c.txt''])] ''unchanged'')"
    by (simp add: ex_pop_head ex_uncommitted ex_committed)
  ultimately show ?thesis
    using ex_status ex_status_empty ex_committed(2) by simp
qed

lemma ex_bad_head:
  "pop_head ex_kwargs_bad_head = (''nonexistent'', ex_kwargs)"
  "diff_index_to_wtree posix ex_diff ex_repo_bad_head ex_kwargs =
     Inr [(''unchanged'', [''dir/a.txt'', ''dir/b.txt'', ''dir/c.txt'']),
          (''not_in_cache'', [''dir/c.txt''])]"
  "diff_head_to_index posix ex_diff ex_repo_bad_head ''nonexistent'' ex_kwargs =
     Inl (DvcSCMError (OtherCause ''unknown revision''))"
  "status posix ex_diff ex_repo_bad_head ''all'' ex_kwargs_bad_head =
     Inr \<lparr>not_in_cache = [''dir/c.txt''], committed = [], uncommitted = [],
          untracked = [''../x.txt''],
          unchanged = {''dir/a.txt'', ''dir/b.txt'', ''dir/c.txt''},
          git = Some \<lparr>git_staged = [], git_unstaged = [],
                       git_untracked = [''a/b/sub/x.txt'', ''a/b/other.txt''],
                       git_is_empty = False, git_is_dirty = True\<rparr>\<rparr>"
  by code_simp+

text \<open>
  The claim C4 as it is written fails. In a repository with a backend and with commits,
  a head that does not resolve makes the committed diff raise the \<^verbatim>\<open>SCMError\<close> of
  \<^verbatim>\<open>dvc.scm\<close>: the cause is neither a missing backend nor a repository without
  commits, and yet \<^verbatim>\<open>status\<close> does not raise it, but returns a report with an empty
  \<^verbatim>\<open>committed\<close>.
\<close>

theorem status_recovers_no_history_counterexample:
  "\<not> is_noscm (scm ex_repo_bad_head)
   \<and> get_rev (scm ex_repo_bad_head) = Inr ''abc123''
   \<and> diff_head_to_index posix ex_diff ex_repo_bad_head (fst (pop_head ex_kwargs_bad_head))
       (snd (pop_head ex_kwargs_bad_head)) = Inl (DvcSCMError (OtherCause ''unknown revision''))
   \<and> DvcSCMError (OtherCause ''unknown revision'') \<noteq> DvcSCMError NoCommits
   \<and> DvcSCMError (OtherCause ''unknown revision'') \<noteq> NoSCMError
   \<and> status posix ex_diff ex_repo_bad_head ''all'' ex_kwargs_bad_head \<noteq>
       Inl (DvcSCMError (OtherCause ''unknown revision''))
   \<and> status posix ex_diff ex_repo_bad_head ''all'' ex_kwargs_bad_head =
       Inr \<lparr>not_in_cache = [''dir/c.txt''], committed = [], uncommitted = [],
            untracked = [''../x.txt''],
            unchanged = {''dir/a.txt'', ''dir/b.txt'', ''dir/c.txt''},
            git = Some \<lparr>git_staged = [], git_unstaged = [],
                         git_untracked = [''a/b/sub/x.txt'', ''a/b/other.txt''],
                         git_is_empty = False, git_is_dirty = True\<rparr>\<rparr>"
proof -
  have "\<not> is_noscm (scm ex_repo_bad_head)"
    and "get_rev (scm ex_repo_bad_head) = Inr ''abc123''"
    by (simp_all add: ex_repo_bad_head_def ex_repo_def ex_scm_def)
  then show ?thesis
    by (simp add: ex_bad_head)
qed

text \<open>
  C4, as the code has it. The \<^verbatim>\<open>except\<close> clause of \<^verbatim>\<open>status\<close> selects by class,
  not by cause. When the committed diff raises the \<^verbatim>\<open>SCMError\<close> of \<^verbatim>\<open>dvc.scm\<close>,
  whatever its cause (no commits yet, but also a head that does not resolve), or the
  \<^verbatim>\<open>NoSCMError\<close>, \<^verbatim>\<open>status\<close> goes on: if the source-control adapter and the path
  translator return, it returns a report whose \<^verbatim>\<open>committed\<close> is the empty mapping.
  An exception of any other class is the outcome of \<^verbatim>\<open>status\<close>.
\<close>

theorem status_recovers_no_history:
  assumes "diff_index_to_wtree os diff r (snd (pop_head kwargs0)) = Inr ud"
    and "diff_head_to_index os diff r (fst (pop_head kwargs0)) (snd (pop_head kwargs0)) = Inl e"
  shows "((\<exists>c. e = DvcSCMError c) \<or> e = NoSCMError \<longrightarrow>
            git_info os (scm r) untracked_files = Inr gi \<longrightarrow>
            transform_git_paths_to_dvc os r (get_untracked gi) = Inr ut \<longrightarrow>
            (\<exists>rep. status os diff r untracked_files kwargs0 = Inr rep \<and> committed rep = []))
       \<and> ((\<forall>c. e \<noteq> DvcSCMError c) \<longrightarrow> e \<noteq> NoSCMError \<longrightarrow>
            status os diff r untracked_files kwargs0 = Inl e)"
proof (intro conjI impI)
  assume "(\<exists>c. e = DvcSCMError c) \<or> e = NoSCMError"
    and "git_info os (scm r) untracked_files = Inr gi"
    and "transform_git_paths_to_dvc os r (get_untracked gi) = Inr ut"
  with assms show "\<exists>rep. status os diff r untracked_files kwargs0 = Inr rep \<and> committed rep = []"
    by (auto simp: status_Inr committed_step_Inr caught_by_status_iff)
next
  assume "\<forall>c. e \<noteq> DvcSCMError c" "e \<noteq> NoSCMError"
  then have "\<not> caught_by_status e"
    by (simp add: caught_by_status_iff)
  with assms show "status os diff r untracked_files kwargs0 = Inl e"
    by (rule status_propagates)
qed

lemma ex_noscm:
  "diff_index_to_wtree posix ex_diff ex_repo_noscm ex_kwargs =
     Inr [(''unchanged'', [''dir/a.txt'', ''dir/b.txt'', ''dir/c.txt'']),
          (''not_in_cache'', [''dir/c.txt''])]"
  "diff_head_to_index posix ex_diff ex_repo_noscm ''HEAD'' ex_kwargs = Inl NoSCMError"
  "git_info posix (scm ex_repo_noscm) ''no'' = Inr None"
  "transform_git_paths_to_dvc posix ex_repo_noscm (get_untracked None) = Inr []"
  by code_simp+

lemma ex_bad_head_git:
  "git_info posix (scm ex_repo_bad_head) ''all'' =
     Inr (Some \<lparr>git_staged = [], git_unstaged = [],
                git_untracked = [''a/b/sub/x.txt'', ''a/b/other.txt''],
                git_is_empty = False, git_is_dirty = True\<rparr>)"
  "transform_git_paths_to_dvc posix ex_repo_bad_head
     (get_untracked (Some \<lparr>git_staged = [], git_unstaged = [],
                git_untracked = [''a/b/sub/x.txt'', ''a/b/other.txt''],
                git_is_empty = False, git_is_dirty = True\<rparr>)) = Inr [''../x.txt'']"
  by code_simp+

theorem status_recovers_no_history_witness:
  "diff_head_to_index posix ex_diff ex_repo_empty (fst (pop_head ex_kwargs))
       (snd (pop_head ex_kwargs)) = Inl (DvcSCMError NoCommits)
   \<and> (\<exists>rep. status posix ex_diff ex_repo_empty ''all'' ex_kwargs = Inr rep \<and> committed rep = [])
   \<and> diff_head_to_index posix ex_diff ex_repo_bad_head (fst (pop_head ex_kwargs_bad_head))
       (snd (pop_head ex_kwargs_bad_head)) = Inl (DvcSCMError (OtherCause ''unknown revision''))
   \<and> (\<exists>rep. status posix ex_diff ex_repo_bad_head ''all'' ex_kwargs_bad_head = Inr rep
         \<and> committed rep = [])
   \<and> diff_head_to_index posix ex_diff ex_repo_noscm (fst (pop_head ex_kwargs))
       (snd (pop_head ex_kwargs)) = Inl NoSCMError
   \<and> (\<exists>rep. status posix ex_diff ex_repo_noscm ''no'' ex_kwargs = Inr rep \<and> committed rep = [])
   \<and> diff_head_to_index posix ex_diff ex_repo_broken (fst (pop_head ex_kwargs))
       (snd (pop_head ex_kwargs)) = Inl (OtherError ''io'')
   \<and> OtherError ''io'' \<noteq> NoSCMError
   \<and> status posix ex_diff ex_repo_broken ''all'' ex_kwargs = Inl (OtherError ''io'')"
proof -
  have ud: "diff_index_to_wtree posix ex_diff ex_repo_empty (snd (pop_head ex_kwargs)) =
      Inr [(''unchanged'', [''dir/a.txt'', ''dir/b.txt'', ''dir/c.txt'']),
          (''not_in_cache'', [''dir/c.txt''])]"
    and cd: "diff_head_to_index posix ex_diff ex_repo_empty (fst (pop_head ex_kwargs))
      (snd (pop_head ex_kwargs)) = Inl (DvcSCMError NoCommits)"
    and ud': "diff_index_to_wtree posix ex_diff ex_repo_broken (snd (pop_head ex_kwargs)) =
      Inr [(''unchanged'', [''dir/a.txt'', ''dir/b.txt'', ''dir/c.txt'']),
          (''not_in_cache'', [''dir/c.txt''])]"
    and cd': "diff_head_to_index posix ex_diff ex_repo_broken (fst (pop_head ex_kwargs))
      (snd (pop_head ex_kwargs)) = Inl (OtherError ''io'')"
    and ud'': "diff_index_to_wtree posix ex_diff ex_repo_noscm (snd (pop_head ex_kwargs)) =
      Inr [(''unchanged'', [''dir/a.txt'', ''dir/b.txt'', ''dir/c.txt'']),
          (''not_in_cache'', [''dir/c.txt''])]"
    and cd'': "diff_head_to_index posix ex_diff ex_repo_noscm (fst (pop_head ex_kwargs))
      (snd (pop_head ex_kwargs)) = Inl NoSCMError"
    and ud3: "diff_index_to_wtree posix ex_diff ex_repo_bad_head
      (snd (pop_head ex_kwargs_bad_head)) =
      Inr [(''unchanged'', [''dir/a.txt'', ''dir/b.txt'', ''dir/c.txt'']),
          (''not_in_cache'', [''dir/c.txt''])]"
    and cd3: "diff_head_to_index posix ex_diff ex_repo_bad_head
      (fst (pop_head ex_kwargs_bad_head)) (snd (pop_head ex_kwargs_bad_head)) =
      Inl (DvcSCMError (OtherCause ''unknown revision''))"
    by (simp_all add: ex_pop_head ex_uncommitted ex_committed ex_noscm ex_bad_head(1-3))
  from status_recovers_no_history [OF ud cd, where untracked_files = "''all''"]
    ex_git_info ex_untracked
  have "\<exists>rep. status posix ex_diff ex_repo_empty ''all'' ex_kwargs = Inr rep \<and> committed rep = []"
    by blast
  moreover from status_recovers_no_history [OF ud3 cd3, where untracked_files = "''all''"]
    ex_bad_head_git
  have "\<exists>rep. status posix ex_diff ex_repo_bad_head ''all'' ex_kwargs_bad_head = Inr rep
      \<and> committed rep = []"
    by blast
  moreover from status_recovers_no_history [OF ud'' cd'', where untracked_files = "''no''"]
    ex_noscm(3,4)
  have "\<exists>rep. status posix ex_diff ex_repo_noscm ''no'' ex_kwargs = Inr rep \<and> committed rep = []"
    by blast
  moreover from status_recovers_no_history [OF ud' cd', where untracked_files = "''all''"]
  have "status posix ex_diff ex_repo_broken ''all'' ex_kwargs = Inl (OtherError ''io'')"
    by simp
  ultimately show ?thesis
    using cd cd' cd'' cd3 by simp
qed

lemma head_loop_workspace:
  "\<forall>s \<in> set states. fst s = ''workspace'' \<Longrightarrow> head_loop states head_index = head_index"
  by (induction states arbitrary: head_index) auto

text \<open>
  The claim C6 as it is written fails. Before the first commit the brancher yields the
  workspace state and then raises the \<^verbatim>\<open>SCMError\<close> of \<^verbatim>\<open>dvc.scm\<close>: it has
  yielded no concrete state, the exception of the comparer is this very "no commits yet"
  failure, and \<^verbatim>\<open>status\<close> recovers it into an empty \<^verbatim>\<open>committed\<close>.
\<close>

theorem head_never_resolved_raises_counterexample:
  "brancher ex_repo_empty (fst (pop_head ex_kwargs)) =
     ([(''workspace'', ex_snapshot)], Some (DvcSCMError NoCommits))
   \<and> fst (''workspace'', ex_snapshot) = ''workspace''
   \<and> diff_head_to_index posix ex_diff ex_repo_empty (fst (pop_head ex_kwargs))
       (snd (pop_head ex_kwargs)) = Inl (DvcSCMError NoCommits)
   \<and> status posix ex_diff ex_repo_empty ''all'' ex_kwargs =
       Inr \<lparr>not_in_cache = [''dir/c.txt''], committed = [], uncommitted = [],
            untracked = [''../x.txt''],
            unchanged = {''dir/a.txt'', ''dir/b.txt'', ''dir/c.txt''},
            git = Some \<lparr>git_staged = [], git_unstaged = [],
                         git_untracked = [''a/b/sub/x.txt'', ''a/b/other.txt''],
                         git_is_empty = True, git_is_dirty = True\<rparr>\<rparr>"
proof -
  have "brancher ex_repo_empty (fst (pop_head ex_kwargs)) =
      ([(''workspace'', ex_snapshot)], Some (DvcSCMError NoCommits))"
    by (simp add: ex_repo_empty_def)
  then show ?thesis
    by (simp add: ex_pop_head ex_committed ex_status_empty)
qed

text \<open>
  C6, as the code has it. When the brancher ends without an exception and has yielded no
  state other than \<^verbatim>\<open>"workspace"\<close>, \<^verbatim>\<open>_diff_head_to_index\<close> raises: it reads
  \<^verbatim>\<open>head_index\<close>, which was never assigned. The exception is an
  \<^verbatim>\<open>UnboundLocalError\<close>, of neither class \<^verbatim>\<open>status\<close> catches, so \<^verbatim>\<open>status\<close>
  returns no report, and raises this exception whenever the uncommitted diff before it
  has returned. When the brancher itself raises, its exception is the one of the
  comparer.
\<close>

theorem head_never_resolved_raises:
  assumes "brancher r (fst (pop_head kwargs0)) = (states, res)"
    and "\<forall>s \<in> set states. fst s = ''workspace''"
  shows "(res = None \<longrightarrow>
            diff_head_to_index os diff r (fst (pop_head kwargs0)) (snd (pop_head kwargs0))
              = Inl UnboundLocalError
          \<and> (\<forall>c. UnboundLocalError \<noteq> DvcSCMError c) \<and> UnboundLocalError \<noteq> NoSCMError
          \<and> (\<forall>rep. status os diff r untracked_files kwargs0 \<noteq> Inr rep)
          \<and> (\<forall>ud. diff_index_to_wtree os diff r (snd (pop_head kwargs0)) = Inr ud \<longrightarrow>
                status os diff r untracked_files kwargs0 = Inl UnboundLocalError))
       \<and> (\<forall>e. res = Some e \<longrightarrow>
            diff_head_to_index os diff r (fst (pop_head kwargs0)) (snd (pop_head kwargs0))
              = Inl e)"
proof -
  have uncaught: "\<not> caught_by_status UnboundLocalError"
    by (simp add: caught_by_status_def)
  have raise: "diff_head_to_index os diff r (fst (pop_head kwargs0)) (snd (pop_head kwargs0))
      = Inl UnboundLocalError" if "res = None"
    using assms that by (simp add: diff_head_to_index_def head_loop_workspace)
  have "status os diff r untracked_files kwargs0 \<noteq> Inr rep" if "res = None" for rep
    using uncaught raise [OF that] by (auto simp: status_Inr committed_step_Inr)
  moreover have "status os diff r untracked_files kwargs0 = Inl UnboundLocalError"
    if "res = None" "diff_index_to_wtree os diff r (snd (pop_head kwargs0)) = Inr ud" for ud
    using that(2) raise [OF that(1)] uncaught by (rule status_propagates)
  moreover have
    "diff_head_to_index os diff r (fst (pop_head kwargs0)) (snd (pop_head kwargs0)) = Inl e"
    if "res = Some e" for e
    using assms(1) that by (simp add: diff_head_to_index_def)
  ultimately show ?thesis
    using raise by simp
qed

theorem head_never_resolved_raises_witness:
  "brancher ex_repo_no_head (fst (pop_head ex_kwargs)) = ([(''workspace'', ex_snapshot)], None)
   \<and> fst (''workspace'', ex_snapshot) = ''workspace''
   \<and> diff_head_to_index posix ex_diff ex_repo_no_head (fst (pop_head ex_kwargs))
       (snd (pop_head ex_kwargs)) = Inl UnboundLocalError
   \<and> diff_index_to_wtree posix ex_diff ex_repo_no_head (snd (pop_head ex_kwargs)) =
       Inr [(''unchanged'', [''dir/a.txt'', ''dir/b.txt'', ''dir/c.txt'']),
          (''not_in_cache'', [''dir/c.txt''])]
   \<and> status posix ex_diff ex_repo_no_head ''all'' ex_kwargs = Inl UnboundLocalError
   \<and> brancher ex_repo_broken (fst (pop_head ex_kwargs)) =
       ([(''workspace'', ex_snapshot)], Some (OtherError ''io''))
   \<and> diff_head_to_index posix ex_diff ex_repo_broken (fst (pop_head ex_kwargs))
       (snd (pop_head ex_kwargs)) = Inl (OtherError ''io'')"
proof -
  have yields: "brancher ex_repo_no_head (fst (pop_head ex_kwargs)) =
      ([(''workspace'', ex_snapshot)], None)"
    and yields': "brancher ex_repo_broken (fst (pop_head ex_kwargs)) =
      ([(''workspace'', ex_snapshot)], Some (OtherError ''io''))"
    by (simp_all add: ex_repo_no_head_def ex_repo_broken_def)
  have only: "\<forall>s \<in> set [(''workspace'', ex_snapshot)]. fst s = ''workspace''"
    by simp
  have ud: "diff_index_to_wtree posix ex_diff ex_repo_no_head (snd (pop_head ex_kwargs)) =
      Inr [(''unchanged'', [''dir/a.txt'', ''dir/b.txt'', ''dir/c.txt'']),
          (''not_in_cache'', [''dir/c.txt''])]"
    by (simp add: ex_pop_head ex_uncommitted)
  from head_never_resolved_raises
    [OF yields only, where os = posix and diff = ex_diff and untracked_files = "''all''"] ud
  have "diff_head_to_index posix ex_diff ex_repo_no_head (fst (pop_head ex_kwargs))
       (snd (pop_head ex_kwargs)) = Inl UnboundLocalError"
    and "status posix ex_diff ex_repo_no_head ''all'' ex_kwargs = Inl UnboundLocalError"
    by blast+
  moreover from head_never_resolved_raises
    [OF yields' only, where os = posix and diff = ex_diff and untracked_files = "''all''"]
  have "diff_head_to_index posix ex_diff ex_repo_broken (fst (pop_head ex_kwargs))
       (snd (pop_head ex_kwargs)) = Inl (OtherError ''io'')"
    by blast
  ultimately show ?thesis
    using yields yields' ud by simp
qed

lemma data_diff_no_missing:
  "data_diff os diff old_idx new_idx granular False = Inr ret \<Longrightarrow>
   map_of ret ''not_in_cache'' = None"
  by (auto simp: data_diff_Inr key_diff_loop emits_not_in_cache)

lemma diff_index_to_wtree_kw:
  "diff_index_to_wtree os diff r kw = Inr ud \<Longrightarrow> kw_with_missing kw = None"
  by (auto simp: diff_index_to_wtree_def split: sum.splits option.splits)

lemma diff_head_to_index_no_missing:
  "diff_head_to_index os diff r head kw = Inr cd \<Longrightarrow> kw_with_missing kw = None \<Longrightarrow>
   ''not_in_cache'' \<notin> fst ` set cd"
  by (auto simp: diff_head_to_index_def map_of_eq_None_iff [symmetric]
      split: prod.splits option.splits dest: data_diff_no_missing)

text \<open>
  C8. In every report \<^verbatim>\<open>status\<close> returns, neither \<^verbatim>\<open>committed\<close> nor
  \<^verbatim>\<open>uncommitted\<close> has the key \<^verbatim>\<open>unchanged\<close> or the key \<^verbatim>\<open>not_in_cache\<close>:
  both are popped from the uncommitted diff; the committed diff is computed with
  \<^verbatim>\<open>with_missing\<close> false (a \<^verbatim>\<open>with_missing\<close> among the keyword arguments makes
  the uncommitted diff raise before), and its \<^verbatim>\<open>unchanged\<close> is popped when it
  returned.
\<close>

theorem status_buckets_removed:
  assumes "status os diff r untracked_files kwargs0 = Inr rep"
  shows "''unchanged'' \<notin> fst ` set (committed rep)
       \<and> ''not_in_cache'' \<notin> fst ` set (committed rep)
       \<and> ''unchanged'' \<notin> fst ` set (uncommitted rep)
       \<and> ''not_in_cache'' \<notin> fst ` set (uncommitted rep)"
proof -
  from assms obtain ud cd unch where
    ud: "diff_index_to_wtree os diff r (snd (pop_head kwargs0)) = Inr ud"
    and cs: "committed_step
          (diff_head_to_index os diff r (fst (pop_head kwargs0)) (snd (pop_head kwargs0)))
          (set (bucket ud ''unchanged'')) = Inr (cd, unch)"
    and c: "committed rep = cd"
    and u: "uncommitted rep = snd (dict_pop (snd (dict_pop ud ''not_in_cache'')) ''unchanged'')"
    by (auto simp: status_Inr)
  have kw: "kw_with_missing (snd (pop_head kwargs0)) = None"
    using ud by (rule diff_index_to_wtree_kw)
  from cs consider (recovered) "cd = []"
    | (popped) cd0 where
        "diff_head_to_index os diff r (fst (pop_head kwargs0)) (snd (pop_head kwargs0)) = Inr cd0"
        "cd = snd (dict_pop cd0 ''unchanged'')"
    by (auto simp: committed_step_Inr)
  then have "''unchanged'' \<notin> fst ` set cd \<and> ''not_in_cache'' \<notin> fst ` set cd"
  proof cases
    case recovered
    then show ?thesis by simp
  next
    case popped
    from popped(1) kw have "''not_in_cache'' \<notin> fst ` set cd0"
      by (rule diff_head_to_index_no_missing)
    then show ?thesis
      by (simp add: popped(2) dict_pop_keys)
  qed
  moreover have "''unchanged'' \<notin> fst ` set (uncommitted rep)
      \<and> ''not_in_cache'' \<notin> fst ` set (uncommitted rep)"
    by (simp add: u dict_pop_keys)
  ultimately show ?thesis
    by (simp add: c)
qed

theorem status_buckets_removed_witness:
  "status posix ex_diff ex_repo ''all'' ex_kwargs =
     Inr \<lparr>not_in_cache = [''dir/c.txt''], committed = [(''added'', [''data/f.txt''])], uncommitted = [],
          untracked = [''../x.txt''], unchanged = {''dir/a.txt''},
          git = Some \<lparr>git_staged = [], git_unstaged = [],
                       git_untracked = [''a/b/sub/x.txt'', ''a/b/other.txt''],
                       git_is_empty = False, git_is_dirty = True\<rparr>\<rparr>
   \<and> diff_head_to_index posix ex_diff ex_repo ''HEAD'' ex_kwargs =
       Inr [(''added'', [''data/f.txt'']), (''unchanged'', [''dir/a.txt''])]
   \<and> ''unchanged'' \<notin> fst ` set [(''added'', [''data/f.txt''])]
   \<and> ''not_in_cache'' \<notin> fst ` set [(''added'', [''data/f.txt''])]"
  using status_buckets_removed [OF ex_status] ex_status ex_committed(1) by simp

subsection \<open>The source-control status adapter\<close>

lemma ex_scm_fields:
  "\<not> is_noscm ex_scm" "get_rev ex_scm = Inr ''abc123''"
  "scm_status ex_scm ''all'' = Inr ([], [], [''a/b/sub/x.txt'', ''a/b/other.txt''])"
  "\<not> is_noscm ex_scm_denied"
  "get_rev ex_scm_denied = Inl (ScmrepoSCMError (OtherCause ''permission denied''))"
  "scm_status ex_scm_denied ''all'' = Inr ([], [], [''a/b/sub/x.txt'', ''a/b/other.txt''])"
  by (simp_all add: ex_scm_def ex_scm_denied_def)

text \<open>
  The claim C5 as it is written fails. A backend that cannot read its repository raises
  the \<^verbatim>\<open>SCMError\<close> of \<^verbatim>\<open>scmrepo\<close> from \<^verbatim>\<open>get_rev()\<close> for a cause that is not
  "no commits yet"; \<^verbatim>\<open>_git_info\<close> catches it all the same and reports
  \<^verbatim>\<open>is_empty\<close> true.
\<close>

theorem git_info_is_empty_counterexample:
  "\<not> is_noscm ex_scm_denied
   \<and> get_rev ex_scm_denied = Inl (ScmrepoSCMError (OtherCause ''permission denied''))
   \<and> ScmrepoSCMError (OtherCause ''permission denied'') \<noteq> ScmrepoSCMError NoCommits
   \<and> git_info posix ex_scm_denied ''all'' \<noteq>
       Inl (ScmrepoSCMError (OtherCause ''permission denied''))
   \<and> git_info posix ex_scm_denied ''all'' =
       Inr (Some \<lparr>git_staged = [], git_unstaged = [],
                  git_untracked = [''a/b/sub/x.txt'', ''a/b/other.txt''],
                  git_is_empty = True, git_is_dirty = True\<rparr>)"
proof -
  have "git_info posix ex_scm_denied ''all'' =
       Inr (Some \<lparr>git_staged = [], git_unstaged = [],
                  git_untracked = [''a/b/sub/x.txt'', ''a/b/other.txt''],
                  git_is_empty = True, git_is_dirty = True\<rparr>)"
    by code_simp
  then show ?thesis
    by (simp add: ex_scm_fields)
qed

text \<open>
  C5, as the code has it. With a backend configured, \<^verbatim>\<open>_git_info\<close> calls
  \<^verbatim>\<open>get_rev()\<close>. The \<^verbatim>\<open>except\<close> clause selects by class, not by cause: the
  \<^verbatim>\<open>SCMError\<close> of \<^verbatim>\<open>scmrepo\<close>, whatever its cause (an empty repository raises
  it), gives \<^verbatim>\<open>is_empty\<close> true; a revision gives \<^verbatim>\<open>is_empty\<close> false; an exception
  of any other class is the outcome of \<^verbatim>\<open>_git_info\<close>.
\<close>

theorem git_info_is_empty:
  assumes "\<not> is_noscm s"
  shows "(get_rev s = Inl (ScmrepoSCMError c) \<longrightarrow>
            scm_status s untracked_files = Inr (staged, unstaged, untracked_paths) \<longrightarrow>
            (\<exists>g. git_info os s untracked_files = Inr (Some g) \<and> git_is_empty g))
       \<and> (get_rev s = Inr revision \<longrightarrow>
            scm_status s untracked_files = Inr (staged, unstaged, untracked_paths) \<longrightarrow>
            (\<exists>g. git_info os s untracked_files = Inr (Some g) \<and> \<not> git_is_empty g))
       \<and> (get_rev s = Inl e \<longrightarrow> (\<forall>c'. e \<noteq> ScmrepoSCMError c') \<longrightarrow>
            git_info os s untracked_files = Inl e)"
  using assms
  by (simp add: git_info_def empty_repo_of_def Let_def is_scmrepo_scm_error_iff)

theorem git_info_is_empty_witness:
  "\<not> is_noscm (ex_scm\<lparr>get_rev := Inl (ScmrepoSCMError NoCommits)\<rparr>)
   \<and> (\<exists>g. git_info posix (ex_scm\<lparr>get_rev := Inl (ScmrepoSCMError NoCommits)\<rparr>) ''all'' =
           Inr (Some g) \<and> git_is_empty g)
   \<and> \<not> is_noscm ex_scm_denied
   \<and> (\<exists>g. git_info posix ex_scm_denied ''all'' = Inr (Some g) \<and> git_is_empty g)
   \<and> \<not> is_noscm ex_scm \<and> get_rev ex_scm = Inr ''abc123''
   \<and> (\<exists>g. git_info posix ex_scm ''all'' = Inr (Some g) \<and> \<not> git_is_empty g)
   \<and> git_info posix (ex_scm\<lparr>get_rev := Inl (OtherError ''corrupt'')\<rparr>) ''all'' =
       Inl (OtherError ''corrupt'')"
proof -
  have "\<exists>g. git_info posix (ex_scm\<lparr>get_rev := Inl (ScmrepoSCMError NoCommits)\<rparr>) ''all'' =
      Inr (Some g) \<and> git_is_empty g"
    using git_info_is_empty
      [where s = "ex_scm\<lparr>get_rev := Inl (ScmrepoSCMError NoCommits)\<rparr>" and c = NoCommits
        and untracked_files = "''all''" and staged = "[]" and unstaged = "[]"
        and untracked_paths = "[''a/b/sub/x.txt'', ''a/b/other.txt'']" and os = posix]
    by (simp add: ex_scm_fields)
  moreover have "\<exists>g. git_info posix ex_scm_denied ''all'' = Inr (Some g) \<and> git_is_empty g"
    using git_info_is_empty
      [where s = ex_scm_denied and c = "OtherCause ''permission denied''"
        and untracked_files = "''all''" and staged = "[]" and unstaged = "[]"
        and untracked_paths = "[''a/b/sub/x.txt'', ''a/b/other.txt'']" and os = posix]
    by (simp add: ex_scm_fields)
  moreover have "\<exists>g. git_info posix ex_scm ''all'' = Inr (Some g) \<and> \<not> git_is_empty g"
    using git_info_is_empty
      [where s = ex_scm and untracked_files = "''all''" and staged = "[]" and unstaged = "[]"
        and untracked_paths = "[''a/b/sub/x.txt'', ''a/b/other.txt'']" and os = posix
        and revision = "''abc123''"]
    by (simp add: ex_scm_fields)
  moreover have "git_info posix (ex_scm\<lparr>get_rev := Inl (OtherError ''corrupt'')\<rparr>) ''all'' =
      Inl (OtherError ''corrupt'')"
    using git_info_is_empty
      [where s = "ex_scm\<lparr>get_rev := Inl (OtherError ''corrupt'')\<rparr>"
        and untracked_files = "''all''" and os = posix and e = "OtherError ''corrupt''"]
    by (simp add: ex_scm_fields)
  ultimately show ?thesis
    by (simp add: ex_scm_fields)
qed

subsection \<open>The path translator\<close>

lemma ex_relpaths:
  "relpath (fs ex_repo) (root_dir ex_repo) (scm_root_dir (scm ex_repo)) = Inr ''a/b/sub''"
  "relpath (fs ex_repo) (getcwd (fs ex_repo)) (root_dir ex_repo) = Inr ''inner''"
  "rstrip_slash ''a/b/sub'' = ''a/b/sub''"
  by code_simp+

text \<open>
  C7. With the repository in \<^verbatim>\<open>a/b/sub\<close> of the source-control root and the current
  directory \<^verbatim>\<open>inner\<close> below the repository root, on a POSIX file system, the list
  \<^verbatim>\<open>["a/b/sub/x.txt"]\<close> becomes \<^verbatim>\<open>["../x.txt"]\<close>. In general, when the repository
  root is a proper subdirectory of the source-control root, the paths that do not start
  with its prefix are dropped, the prefix is cut off the others, and each of them is
  passed to \<^verbatim>\<open>relpath\<close> with the current directory, seen from the repository root,
  as start (or returned as it is when that is the root itself).
\<close>

theorem transform_git_paths_subdir:
  "transform_git_paths_to_dvc posix ex_repo [''a/b/sub/x.txt''] = Inr [''../x.txt'']
   \<and> (relpath (fs r) (root_dir r) (scm_root_dir (scm r)) = Inr rel0 \<longrightarrow>
      rstrip_slash rel0 \<noteq> ''.'' \<longrightarrow> rstrip_slash rel0 \<noteq> '''' \<longrightarrow>
      relpath (fs r) (getcwd (fs r)) (root_dir r) = Inr start \<longrightarrow>
      transform_git_paths_to_dvc os r files =
        (let prefix = rstrip_slash rel0 @ os_sep os;
             inside = map (drop (length prefix))
                        (filter (\<lambda>file. startswith file prefix) files)
         in if start = ''.'' \<or> start = '''' then Inr inside
            else map_err (\<lambda>file. relpath (fs r) file start) inside))"
proof
  show "transform_git_paths_to_dvc posix ex_repo [''a/b/sub/x.txt''] = Inr [''../x.txt'']"
    by code_simp
next
  show "relpath (fs r) (root_dir r) (scm_root_dir (scm r)) = Inr rel0 \<longrightarrow>
      rstrip_slash rel0 \<noteq> ''.'' \<longrightarrow> rstrip_slash rel0 \<noteq> '''' \<longrightarrow>
      relpath (fs r) (getcwd (fs r)) (root_dir r) = Inr start \<longrightarrow>
      transform_git_paths_to_dvc os r files =
        (let prefix = rstrip_slash rel0 @ os_sep os;
             inside = map (drop (length prefix))
                        (filter (\<lambda>file. startswith file prefix) files)
         in if start = ''.'' \<or> start = '''' then Inr inside
            else map_err (\<lambda>file. relpath (fs r) file start) inside)"
    by (simp add: transform_git_paths_to_dvc_def Let_def os_curdir_def)
qed

lemma ex_inside:
  "map (drop (length (rstrip_slash ''a/b/sub'' @ os_sep posix)))
     (filter (\<lambda>file. startswith file (rstrip_slash ''a/b/sub'' @ os_sep posix))
        [''a/b/sub/x.txt'', ''a/b/other.txt'', ''a/b/sub/d/z'']) = [''x.txt'', ''d/z'']"
  "map_err (\<lambda>file. relpath (fs ex_repo) file ''inner'') [''x.txt'', ''d/z''] =
     Inr [''../x.txt'', ''../d/z'']"
  by code_simp+

theorem transform_git_paths_subdir_witness:
  "relpath (fs ex_repo) (root_dir ex_repo) (scm_root_dir (scm ex_repo)) = Inr ''a/b/sub''
   \<and> rstrip_slash ''a/b/sub'' \<noteq> ''.'' \<and> rstrip_slash ''a/b/sub'' \<noteq> ''''
   \<and> relpath (fs ex_repo) (getcwd (fs ex_repo)) (root_dir ex_repo) = Inr ''inner''
   \<and> transform_git_paths_to_dvc posix ex_repo
       [''a/b/sub/x.txt'', ''a/b/other.txt'', ''a/b/sub/d/z''] = Inr [''../x.txt'', ''../d/z'']"
proof -
  have proper: "rstrip_slash ''a/b/sub'' \<noteq> ''.''" "rstrip_slash ''a/b/sub'' \<noteq> ''''"
    by (simp_all add: ex_relpaths(3))
  have inner: "(''inner'' = ''.'' \<or> ''inner'' = '''') = False"
    by simp
  from transform_git_paths_subdir
    [of ex_repo "''a/b/sub''" "''inner''" posix
      "[''a/b/sub/x.txt'', ''a/b/other.txt'', ''a/b/sub/d/z'']"]
    ex_relpaths(1,2) proper
  have "transform_git_paths_to_dvc posix ex_repo
       [''a/b/sub/x.txt'', ''a/b/other.txt'', ''a/b/sub/d/z''] =
     (let prefix = rstrip_slash ''a/b/sub'' @ os_sep posix;
          inside = map (drop (length prefix))
                     (filter (\<lambda>file. startswith file prefix)
                        [''a/b/sub/x.txt'', ''a/b/other.txt'', ''a/b/sub/d/z''])
      in if ''inner'' = ''.'' \<or> ''inner'' = '''' then Inr inside
         else map_err (\<lambda>file. relpath (fs ex_repo) file ''inner'') inside)"
    by blast
  then have "transform_git_paths_to_dvc posix ex_repo
       [''a/b/sub/x.txt'', ''a/b/other.txt'', ''a/b/sub/d/z''] = Inr [''../x.txt'', ''../d/z'']"
    unfolding Let_def ex_inside(1) inner by (simp only: if_False ex_inside(2))
  with ex_relpaths(1,2) proper show ?thesis
    by blast
qed

text \<open>
  The relpath of the file system always returns. A path that is the prefix itself becomes
  the empty path, which the file system takes for the current directory.
\<close>

lemma dot_or_nonempty: "(if c then ''.'' else if p = [] then ''.'' else p) \<noteq> []"
  by simp

lemma posix_normpath_nonempty: "posix_normpath path \<noteq> []"
  unfolding posix_normpath_def Let_def by (rule dot_or_nonempty)

lemma case_list_Inr: "\<exists>rel. (case xs of [] \<Rightarrow> Inr a | x # ys \<Rightarrow> Inr (f x ys)) = Inr rel"
  by (cases xs) simp_all

lemma posix_relpath_returns:
  assumes "path \<noteq> []"
  shows "\<exists>rel. posix_relpath cwd path start = Inr rel"
  unfolding posix_relpath_def Let_def using assms
  by (simp only: if_False) (rule case_list_Inr)

lemma fs_path_relpath_returns: "\<exists>rel. fs_path_relpath cwd path start = Inr rel"
  unfolding fs_path_relpath_def posix_abspath_def
  by (rule posix_relpath_returns) (rule posix_normpath_nonempty)

lemma ex_repo_root_untracked:
  "transform_git_paths_to_dvc posix ex_repo [''a/b/sub/'', ''a/b/sub/x.txt''] =
     Inr [''..'', ''../x.txt'']"
  by code_simp

subsection \<open>Importing a URL\<close>

lemma run_steps_first: "\<exists>evs res. run_steps f (ev # steps) = (ev # evs, res)"
  by (cases "f ev"; cases "run_steps f steps") auto


lemma imp_url_body_valid:
  assumes "\<not> (to_remote a \<and> (no_exec a \<or> no_download a))"
    and "\<not> (\<not> to_remote a \<and> truthy (remote a))"
    and "resolve_output env (url a) (out a) = Inr out1"
    and "resolve_paths env out1 (to_remote a \<and> out1 = []) = Inr p"
  shows "\<exists>stage_name wdir dep outp va evs res.
           imp_url_body env a = (Create stage_name wdir dep outp va # evs, res)"
proof -
  obtain path wdir out2 where "p = (path, wdir, out2)"
    by (rule prod_cases3)
  with assms have "\<exists>f stage_name wdir dep outp va steps.
      imp_url_body env a = run_steps f (Create stage_name wdir dep outp va # steps)"
    by (simp add: imp_url_body_def Let_def del: run_steps.simps) blast
  then show ?thesis
    using run_steps_first by metis
qed




lemma imp_url_valid_creates:
  assumes "\<not> (to_remote a \<and> (no_exec a \<or> no_download a))"
    and "\<not> (\<not> to_remote a \<and> truthy (remote a))"
    and "decorators_enter env = None"
    and "resolve_output env (url a) (out a) = Inr out1"
    and "resolve_paths env out1 (to_remote a \<and> out1 = []) = Inr p"
  shows "\<exists>stage_name wdir dep outp va evs res.
           imp_url env a = (Create stage_name wdir dep outp va # evs, res)"
proof -
  from imp_url_body_valid [OF assms(1,2,4,5)]
  obtain stage_name wdir dep outp va evs res where
    "imp_url_body env a = (Create stage_name wdir dep outp va # evs, res)"
    by blast
  with assms(3) show ?thesis
    by (cases res) (simp_all add: imp_url_def)
qed



end
